theory Spec2Isabelle
  imports Main "HOL-Library.Word" "HOL-Library.Multiset" "HOL-Library.AList"
begin

unbundle bit_operations_syntax

section \<open>Strings\<close>

text \<open>
  Go strings are byte sequences; \<^typ>\<open>string\<close> is a list of bytes as well. The
  helpers below are the functions of Go's \<^verbatim>\<open>strings\<close> package that the
  provider calls, each restricted to the way it is called.
\<close>

definition hasSuffix :: "string \<Rightarrow> string \<Rightarrow> bool" where
  \<comment> \<open>\<^verbatim>\<open>strings.HasSuffix(s, suffix)\<close>\<close>
  "hasSuffix s suf \<longleftrightarrow>
     length suf \<le> length s \<and> drop (length s - length suf) s = suf"

definition hasPrefix :: "string \<Rightarrow> string \<Rightarrow> bool" where
  \<comment> \<open>\<^verbatim>\<open>strings.HasPrefix(s, prefix)\<close>\<close>
  "hasPrefix s pre \<longleftrightarrow> take (length pre) s = pre"

fun contains :: "string \<Rightarrow> string \<Rightarrow> bool" where
  \<comment> \<open>\<^verbatim>\<open>strings.Contains(s, substr)\<close>\<close>
  "contains [] sub = (sub = [])"
| "contains (c # cs) sub = (hasPrefix (c # cs) sub \<or> contains cs sub)"

definition trim :: "string \<Rightarrow> char set \<Rightarrow> string" where
  \<comment> \<open>\<^verbatim>\<open>strings.Trim(s, cutset)\<close> for a cutset of ASCII bytes: all leading and
      trailing bytes of the cutset are removed\<close>
  "trim s cutset =
     rev (dropWhile (\<lambda>c. c \<in> cutset) (rev (dropWhile (\<lambda>c. c \<in> cutset) s)))"

definition replaceAll :: "string \<Rightarrow> char \<Rightarrow> string \<Rightarrow> string" where
  \<comment> \<open>\<^verbatim>\<open>strings.ReplaceAll(s, old, new)\<close> for a one-byte \<^verbatim>\<open>old\<close>\<close>
  "replaceAll s old new = concat (map (\<lambda>c. if c = old then new else [c]) s)"

definition toLowerByte :: "char \<Rightarrow> char" where
  "toLowerByte c =
     (if 65 \<le> (of_char c :: nat) \<and> (of_char c :: nat) \<le> 90
      then char_of ((of_char c :: nat) + 32) else c)"

definition toLower :: "string \<Rightarrow> string" where
  \<comment> \<open>\<^verbatim>\<open>strings.ToLower\<close> on ASCII text\<close>
  "toLower s = map toLowerByte s"

section \<open>Value formatter\<close>

definition RecordTypeTXT :: string where "RecordTypeTXT = ''TXT''"
definition RecordTypeA :: string where "RecordTypeA = ''A''"
definition RecordTypeAAAA :: string where "RecordTypeAAAA = ''AAAA''"

definition formatTXTValue :: "string \<Rightarrow> string" where
  "formatTXTValue value0 =
     (let value1 = trim value0 {CHR 0x22, CHR 0x27};
          value2 = replaceAll value1 (CHR 0x22) [];
          value3 = replaceAll value2 (CHR 0x0A) '' '';
          value4 = replaceAll value3 (CHR 0x0D) '' '';
          value5 = replaceAll value4 (CHR 0x09) '' ''
      in value5)"

definition formatRecordValue :: "string \<Rightarrow> string \<Rightarrow> string" where
  "formatRecordValue value0 recordType =
     (if recordType = RecordTypeTXT then formatTXTValue value0 else value0)"

section \<open>Numbers as text\<close>

text \<open>
  The provider keeps the selected domain's identifier as text (\<^verbatim>\<open>strconv.Itoa\<close>) and
  parses it back before every backend call (\<^verbatim>\<open>strconv.Atoi\<close>). Go's \<^verbatim>\<open>int\<close> is a
  signed 64-bit integer on the platforms the service is built for: a 64-bit word read by
  \<open>sint\<close>.
\<close>

type_synonym go_int = "64 word"

definition digitChar :: "nat \<Rightarrow> char" where
  "digitChar d = ''0123456789'' ! d"

definition digitVal :: "char \<Rightarrow> int option" where
  "digitVal c =
     (if 48 \<le> (of_char c :: int) \<and> (of_char c :: int) \<le> 57
      then Some ((of_char c :: int) - 48) else None)"

function natToDec :: "nat \<Rightarrow> string" where
  "natToDec n = (if n < 10 then [digitChar n] else natToDec (n div 10) @ [digitChar (n mod 10)])"
  by pat_completeness auto
termination
  by (relation "measure (\<lambda>n. n)") auto

fun parseDigits :: "string \<Rightarrow> int \<Rightarrow> int option" where
  "parseDigits [] acc = Some acc"
| "parseDigits (c # cs) acc =
     (case digitVal c of None \<Rightarrow> None | Some d \<Rightarrow> parseDigits cs (acc * 10 + d))"

definition Itoa :: "go_int \<Rightarrow> string" where
  "Itoa i = (if sint i < 0 then CHR ''-'' # natToDec (nat (- sint i)) else natToDec (nat (sint i)))"

definition Atoi :: "string \<Rightarrow> go_int option" where
  \<comment> \<open>an optional sign, then one or more decimal digits; a value outside the 64-bit range
      is an error\<close>
  "Atoi s =
     (let neg = (s \<noteq> [] \<and> hd s = CHR ''-'');
          body = (if s \<noteq> [] \<and> (hd s = CHR ''-'' \<or> hd s = CHR ''+'') then tl s else s)
      in if body = [] then None
         else (case parseDigits body 0 of
                 None \<Rightarrow> None
               | Some n \<Rightarrow>
                   if neg then (if n \<le> 2 ^ 63 then Some (word_of_int (- n)) else None)
                   else (if n < 2 ^ 63 then Some (word_of_int n) else None)))"

section \<open>Data model\<close>

text \<open>
  \<^verbatim>\<open>endpoint.Endpoint\<close> (the desired record set of one name and kind) and
  \<^verbatim>\<open>myrasec.DNSRecord\<close> (one record held by the backend), with the fields the
  provider reads or writes. The record kind of a backend record is the field
  \<^verbatim>\<open>RecordType\<close> in the source and \<open>RecType\<close> here, since both structures name it alike.
\<close>

record Endpoint =
  DNSName :: string
  Targets :: "string list"
  RecordType :: string
  RecordTTL :: int
  Labels :: "string \<rightharpoonup> string"

record DNSRecord =
  ID :: int
  Name :: string
  Value :: string
  RecType :: string
  Active :: bool
  Enabled :: bool
  TTL :: int

record Domain =
  DomainID :: go_int
  DomainName :: string

record Changes =
  Create :: "Endpoint list"
  UpdateOld :: "Endpoint list"
  UpdateNew :: "Endpoint list"
  Delete :: "Endpoint list"

definition CREATE :: string where "CREATE = ''CREATE''"
definition UPDATE :: string where "UPDATE = ''UPDATE''"
definition DELETE :: string where "DELETE = ''DELETE''"

text \<open>A task's \<open>oldChange\<close> is a pointer that is nil for create and delete tasks.\<close>

record changeTask =
  action :: string
  change :: Endpoint
  oldChange :: "Endpoint option"

text \<open>
  The provider. \<open>filters\<close> and \<open>filterMatch\<close> are the \<^verbatim>\<open>Filters\<close> field and the
  \<^verbatim>\<open>Match\<close> method of its \<^verbatim>\<open>endpoint.DomainFilter\<close>, a library type.
\<close>

record MyraSecDNSProvider =
  filters :: "string list"
  filterMatch :: "string \<Rightarrow> bool"
  domainId :: string
  domainName :: string
  dryRun :: bool
  cachedDomains :: "Domain list"
  ttl :: int
  owner :: string
  disableProtection :: bool

text \<open>
  What the process takes from its surroundings: the value of the environment variable
  \<^verbatim>\<open>ENV\<close>, the library function \<^verbatim>\<open>net.ParseIP\<close> (an address is its byte sequence,
  16 bytes as the library returns it), and the order in which the runtime ranges over the
  two maps of the update path. Go leaves the iteration order of a map unspecified, so the
  order is a parameter: \<open>rangeCurrent\<close> and \<open>rangeDesired\<close> reorder the entries, and
  \<open>rangeOrder\<close> says that they only reorder.
\<close>

type_synonym IP = "nat list"

record Runtime =
  ENV :: string
  ParseIP :: "string \<Rightarrow> IP option"
  rangeCurrent :: "(string \<times> DNSRecord) list \<Rightarrow> (string \<times> DNSRecord) list"
  rangeDesired :: "string list \<Rightarrow> string list"

definition rangeOrder :: "Runtime \<Rightarrow> bool" where
  "rangeOrder rt \<longleftrightarrow>
     (\<forall>m. mset (rangeCurrent rt m) = mset m) \<and> (\<forall>d. mset (rangeDesired rt d) = mset d)"

datatype error =
    ErrUpdateSlicesMismatch
  | ErrDomainNotFound
  | ApiError string
  | AtoiError string
  | Wrapped string error
  | MismatchedLists nat nat
  | UnknownAction string

section \<open>Backend client\<close>

text \<open>
  The backend is reached through the five calls of the interface
  \<^verbatim>\<open>MyraSecAPIClient\<close>. A client is any implementation of them over a backend state
  \<open>'s\<close>: each call answers and may change the state; an error answer carries the text
  of \<^verbatim>\<open>err.Error()\<close>. The record that the mutating calls return is discarded by the
  provider and is left out. The world is the backend state together with the log of the
  calls issued so far.
\<close>

record 's Client =
  ListDomains :: "'s \<Rightarrow> (string + Domain list) \<times> 's"
  ListDNSRecords :: "go_int \<Rightarrow> 's \<Rightarrow> (string + DNSRecord list) \<times> 's"
  CreateDNSRecord :: "DNSRecord \<Rightarrow> go_int \<Rightarrow> 's \<Rightarrow> string option \<times> 's"
  UpdateDNSRecord :: "DNSRecord \<Rightarrow> go_int \<Rightarrow> 's \<Rightarrow> string option \<times> 's"
  DeleteDNSRecord :: "DNSRecord \<Rightarrow> go_int \<Rightarrow> 's \<Rightarrow> string option \<times> 's"

datatype call =
    ListDomainsCall
  | ListCall go_int
  | CreateCall DNSRecord go_int
  | UpdateCall DNSRecord go_int
  | DeleteCall DNSRecord go_int

record 's world =
  backend :: 's
  calls :: "call list"

definition callListDomains :: "'s Client \<Rightarrow> 's world \<Rightarrow> (string + Domain list) \<times> 's world" where
  "callListDomains c w =
     (case ListDomains c (backend w) of
        (r, s') \<Rightarrow> (r, \<lparr>backend = s', calls = calls w @ [ListDomainsCall]\<rparr>))"

definition callList ::
  "'s Client \<Rightarrow> go_int \<Rightarrow> 's world \<Rightarrow> (string + DNSRecord list) \<times> 's world" where
  "callList c d w =
     (case ListDNSRecords c d (backend w) of
        (r, s') \<Rightarrow> (r, \<lparr>backend = s', calls = calls w @ [ListCall d]\<rparr>))"

definition callCreate ::
  "'s Client \<Rightarrow> DNSRecord \<Rightarrow> go_int \<Rightarrow> 's world \<Rightarrow> string option \<times> 's world" where
  "callCreate c r d w =
     (case CreateDNSRecord c r d (backend w) of
        (e, s') \<Rightarrow> (e, \<lparr>backend = s', calls = calls w @ [CreateCall r d]\<rparr>))"

definition callUpdate ::
  "'s Client \<Rightarrow> DNSRecord \<Rightarrow> go_int \<Rightarrow> 's world \<Rightarrow> string option \<times> 's world" where
  "callUpdate c r d w =
     (case UpdateDNSRecord c r d (backend w) of
        (e, s') \<Rightarrow> (e, \<lparr>backend = s', calls = calls w @ [UpdateCall r d]\<rparr>))"

definition callDelete ::
  "'s Client \<Rightarrow> DNSRecord \<Rightarrow> go_int \<Rightarrow> 's world \<Rightarrow> string option \<times> 's world" where
  "callDelete c r d w =
     (case DeleteDNSRecord c r d (backend w) of
        (e, s') \<Rightarrow> (e, \<lparr>backend = s', calls = calls w @ [DeleteCall r d]\<rparr>))"

text \<open>
  The calls issued between two worlds, the calls that change the backend, and the record
  value a call is about.
\<close>

definition issued :: "'s world \<Rightarrow> 's world \<Rightarrow> call list" where
  "issued w w' = drop (length (calls w)) (calls w')"


fun isDeleteOf :: "string \<Rightarrow> call \<Rightarrow> bool" where
  "isDeleteOf v (DeleteCall r d) = (Value r = v)"
| "isDeleteOf v (CreateCall r d) = False"
| "isDeleteOf v (UpdateCall r d) = False"
| "isDeleteOf v ListDomainsCall = False"
| "isDeleteOf v (ListCall d) = False"

fun isCreateOf :: "string \<Rightarrow> call \<Rightarrow> bool" where
  "isCreateOf v (CreateCall r d) = (Value r = v)"
| "isCreateOf v (DeleteCall r d) = False"
| "isCreateOf v (UpdateCall r d) = False"
| "isCreateOf v ListDomainsCall = False"
| "isCreateOf v (ListCall d) = False"

text \<open>A call sequence deletes a record of value \<open>v\<close> and later creates one of value \<open>v\<close>.\<close>

fun deletedThenCreated :: "string \<Rightarrow> call list \<Rightarrow> bool" where
  "deletedThenCreated v [] = False"
| "deletedThenCreated v (c # cs) =
     ((isDeleteOf v c \<and> list_ex (isCreateOf v) cs) \<or> deletedThenCreated v cs)"

fun callValue :: "call \<Rightarrow> string option" where
  "callValue (CreateCall r d) = Some (Value r)"
| "callValue (UpdateCall r d) = Some (Value r)"
| "callValue (DeleteCall r d) = Some (Value r)"
| "callValue ListDomainsCall = None"
| "callValue (ListCall d) = None"

section \<open>Names, environment and the safety policy\<close>

definition stripTrailingDot :: "string \<Rightarrow> string" where
  "stripTrailingDot name =
     (if hasSuffix name ''.'' then take (length name - 1) name else name)"

definition ensureFullDNSName :: "MyraSecDNSProvider \<Rightarrow> string \<Rightarrow> string" where
  "ensureFullDNSName p dnsName =
     (if domainName p = [] then dnsName
      else if hasSuffix dnsName (domainName p) then dnsName
      else dnsName @ ''.'' @ domainName p)"

text \<open>
  The canonical name and the TTL that every mutation path computes for an endpoint (the
  locals \<^verbatim>\<open>dnsName\<close> and \<^verbatim>\<open>ttl\<close> of the source).
\<close>

definition dnsNameOf :: "MyraSecDNSProvider \<Rightarrow> Endpoint \<Rightarrow> string" where
  "dnsNameOf p ep = ensureFullDNSName p (stripTrailingDot (DNSName ep))"

definition ttlOf :: "MyraSecDNSProvider \<Rightarrow> Endpoint \<Rightarrow> int" where
  "ttlOf p ep = (if 0 < RecordTTL ep then RecordTTL ep else ttl p)"

definition isProduction :: "Runtime \<Rightarrow> bool" where
  "isProduction rt \<longleftrightarrow>
     (let env = toLower (ENV rt)
      in env = ''prod'' \<or> env = ''production'' \<or> env = ''staging'')"

text \<open>
  The part of Go's \<^verbatim>\<open>net\<close> package behind \<^verbatim>\<open>isPrivateIP\<close>: \<^verbatim>\<open>net.IPv4\<close> builds the
  16-byte form of an IPv4 address, \<^verbatim>\<open>To4\<close> recovers the four bytes, \<^verbatim>\<open>CIDRMask\<close>
  builds a mask, and \<^verbatim>\<open>IPNet.Contains\<close> compares the masked bytes after both sides are
  reduced by \<^verbatim>\<open>To4\<close> where possible.
\<close>

definition IPv4 :: "nat \<Rightarrow> nat \<Rightarrow> nat \<Rightarrow> nat \<Rightarrow> IP" where
  "IPv4 a b c d = replicate 10 0 @ [255, 255, a, b, c, d]"

definition To4 :: "IP \<Rightarrow> IP option" where
  "To4 ip =
     (if length ip = 4 then Some ip
      else if length ip = 16 \<and> take 10 ip = replicate 10 0 \<and> ip ! 10 = 255 \<and> ip ! 11 = 255
      then Some (drop 12 ip)
      else None)"

definition CIDRMask :: "nat \<Rightarrow> nat \<Rightarrow> nat list" where
  "CIDRMask ones bits =
     map (\<lambda>i. if 8 * (i + 1) \<le> ones then 255
              else if ones \<le> 8 * i then 0
              else 256 - 2 ^ (8 * (i + 1) - ones))
         [0..<bits div 8]"

record IPNet =
  netIP :: IP
  netMask :: "nat list"

definition ipnetContains :: "IPNet \<Rightarrow> IP \<Rightarrow> bool" where
  "ipnetContains n ip =
     (let nn = (case To4 (netIP n) of Some x \<Rightarrow> x | None \<Rightarrow> netIP n);
          m = netMask n;
          x = (case To4 ip of Some y \<Rightarrow> y | None \<Rightarrow> ip)
      in length m = length nn \<and> length x = length nn \<and>
         map2 (\<lambda>a b. a AND b) nn m = map2 (\<lambda>a b. a AND b) x m)"

definition privateBlocks :: "IPNet list" where
  "privateBlocks =
     [\<lparr>netIP = IPv4 10 0 0 0, netMask = CIDRMask 8 32\<rparr>,
      \<lparr>netIP = IPv4 172 16 0 0, netMask = CIDRMask 12 32\<rparr>,
      \<lparr>netIP = IPv4 192 168 0 0, netMask = CIDRMask 16 32\<rparr>,
      \<lparr>netIP = IPv4 169 254 0 0, netMask = CIDRMask 16 32\<rparr>,
      \<lparr>netIP = IPv4 127 0 0 0, netMask = CIDRMask 8 32\<rparr>,
      \<lparr>netIP = replicate 15 0 @ [1], netMask = CIDRMask 128 128\<rparr>]"

definition isPrivateIP :: "Runtime \<Rightarrow> string \<Rightarrow> bool" where
  "isPrivateIP rt ipStr =
     (case ParseIP rt ipStr of
        None \<Rightarrow> False
      | Some ip \<Rightarrow> list_ex (\<lambda>block. ipnetContains block ip) privateBlocks)"

definition isPrivateEndpoint :: "Runtime \<Rightarrow> Endpoint \<Rightarrow> bool" where
  "isPrivateEndpoint rt ep \<longleftrightarrow>
     (RecordType ep = RecordTypeA \<or> RecordType ep = RecordTypeAAAA) \<and>
     list_ex (isPrivateIP rt) (Targets ep)"

text \<open>
  The dotted-decimal case of \<^verbatim>\<open>net.ParseIP\<close>: four decimal fields separated by dots,
  each at most 255 and without a leading zero. It is the parser of the concrete runs
  below; the theorems hold for every parser.
\<close>

fun splitOn :: "char \<Rightarrow> string \<Rightarrow> string list" where
  "splitOn sep [] = [[]]"
| "splitOn sep (c # cs) =
     (if c = sep then [] # splitOn sep cs
      else (case splitOn sep cs of f # fs \<Rightarrow> (c # f) # fs | [] \<Rightarrow> [[c]]))"

definition parseOctet :: "string \<Rightarrow> nat option" where
  "parseOctet f =
     (if f = [] \<or> (1 < length f \<and> hd f = CHR ''0'') then None
      else (case parseDigits f 0 of
              None \<Rightarrow> None
            | Some n \<Rightarrow> if n \<le> 255 then Some (nat n) else None))"

definition parseDottedIPv4 :: "string \<Rightarrow> IP option" where
  "parseDottedIPv4 s =
     (case map parseOctet (splitOn (CHR ''.'') s) of
        [Some a, Some b, Some c, Some d] \<Rightarrow> Some (IPv4 a b c d)
      | _ \<Rightarrow> None)"

section \<open>Ownership registry and record matcher\<close>

definition isOwnedByExternalDNS :: "string \<Rightarrow> string \<Rightarrow> bool" where
  "isOwnedByExternalDNS txtValue owner' \<longleftrightarrow>
     contains txtValue ''heritage=external-dns'' \<and>
     contains txtValue (''external-dns/owner='' @ owner')"

text \<open>
  The index of text records by name that each mutation path builds from the snapshot;
  a later record of the same name replaces an earlier one.
\<close>

fun indexTXT :: "DNSRecord list \<Rightarrow> (string \<rightharpoonup> string) \<Rightarrow> (string \<rightharpoonup> string)" where
  "indexTXT [] txtRecords = txtRecords"
| "indexTXT (r # rs) txtRecords =
     indexTXT rs (if RecType r = RecordTypeTXT then txtRecords(Name r \<mapsto> Value r) else txtRecords)"

text \<open>
  The ownership check of the update and delete paths, there written
  \<^verbatim>\<open>txtVal, ok := txtRecords[name]; !ok || !isOwnedByExternalDNS(txtVal, p.owner)\<close>
  for the skip.
\<close>

definition ownershipCheck :: "(string \<rightharpoonup> string) \<Rightarrow> string \<Rightarrow> string \<Rightarrow> bool" where
  "ownershipCheck txtRecords name owner' =
     (case txtRecords name of
        None \<Rightarrow> False
      | Some txtVal \<Rightarrow> isOwnedByExternalDNS txtVal owner')"

text \<open>The test of \<^verbatim>\<open>findMatchingRecords\<close> on one record.\<close>

definition matches :: "string \<Rightarrow> string \<Rightarrow> DNSRecord \<Rightarrow> bool" where
  "matches dnsName recordType rec \<longleftrightarrow>
     stripTrailingDot (Name rec) = stripTrailingDot dnsName \<and> RecType rec = recordType"

definition findMatchingRecords :: "DNSRecord list \<Rightarrow> string \<Rightarrow> string \<Rightarrow> DNSRecord list" where
  "findMatchingRecords records dnsName recordType =
     filter (matches dnsName recordType) records"

section \<open>Single backend mutations\<close>

text \<open>The record that \<^verbatim>\<open>createDNSRecord\<close> builds and submits.\<close>

definition newRecord ::
  "MyraSecDNSProvider \<Rightarrow> string \<Rightarrow> string \<Rightarrow> string \<Rightarrow> int \<Rightarrow> DNSRecord" where
  "newRecord p dnsName recordType value0 ttl' =
     \<lparr>ID = 0, Name = dnsName, Value = formatRecordValue value0 recordType,
      RecType = recordType, Active = (\<not> disableProtection p), Enabled = True, TTL = ttl'\<rparr>"

definition createDNSRecord ::
  "MyraSecDNSProvider \<Rightarrow> Runtime \<Rightarrow> 's Client \<Rightarrow> string \<Rightarrow> string \<Rightarrow> string \<Rightarrow> int \<Rightarrow>
   's world \<Rightarrow> error option \<times> 's world" where
  "createDNSRecord p rt c dnsName recordType value0 ttl' w =
     (let record = newRecord p dnsName recordType value0 ttl'
      in case Atoi (domainId p) of
           None \<Rightarrow> (Some (Wrapped ''invalid domain ID'' (AtoiError (domainId p))), w)
         | Some domainID \<Rightarrow>
             (case callCreate c record domainID w of
                (None, w') \<Rightarrow> (None, w')
              | (Some msg, w') \<Rightarrow>
                  if contains msg ''This value is already used'' then (None, w')
                  else if contains msg ''private network range'' \<and> isProduction rt then (None, w')
                  else if contains msg ''private network range'' then (None, w')
                  else (Some (ApiError msg), w')))"

definition deleteDNSRecord ::
  "MyraSecDNSProvider \<Rightarrow> 's Client \<Rightarrow> DNSRecord \<Rightarrow> 's world \<Rightarrow> error option \<times> 's world" where
  "deleteDNSRecord p c record w =
     (case Atoi (domainId p) of
        None \<Rightarrow> (None, w)
      | Some domainID \<Rightarrow>
          (case callDelete c record domainID w of
             (None, w') \<Rightarrow> (None, w')
           | (Some msg, w') \<Rightarrow> (Some (ApiError msg), w')))"

section \<open>Create path\<close>

definition OwnerLabelKey :: string where "OwnerLabelKey = ''owner''"
definition ResourceLabelKey :: string where "ResourceLabelKey = ''resource''"

text \<open>The loop over the targets of one endpoint; the first failure ends it.\<close>

fun createTargets ::
  "MyraSecDNSProvider \<Rightarrow> Runtime \<Rightarrow> 's Client \<Rightarrow> string \<Rightarrow> string \<Rightarrow> int \<Rightarrow> string list \<Rightarrow>
   's world \<Rightarrow> error option \<times> 's world" where
  "createTargets p rt c dnsName recordType ttl' [] w = (None, w)"
| "createTargets p rt c dnsName recordType ttl' (target # targets) w =
     (let val = formatRecordValue target recordType
      in case createDNSRecord p rt c dnsName recordType val ttl' w of
           (Some err, w') \<Rightarrow> (Some err, w')
         | (None, w') \<Rightarrow> createTargets p rt c dnsName recordType ttl' targets w')"

text \<open>
  The source also stores the owner label in the endpoint it was given; the caller's
  endpoint is not part of the result here, the label map with the owner label is the
  local \<open>labels\<close>.
\<close>

fun processCreateActions ::
  "MyraSecDNSProvider \<Rightarrow> Runtime \<Rightarrow> 's Client \<Rightarrow> Endpoint list \<Rightarrow> 's world \<Rightarrow>
   error option \<times> 's world" where
  "processCreateActions p rt c [] w = (None, w)"
| "processCreateActions p rt c (ep # endpoints) w =
     (let dnsName = dnsNameOf p ep
      in if isProduction rt \<and> isPrivateEndpoint rt ep then processCreateActions p rt c endpoints w
         else
           (let ttl' = ttlOf p ep;
                labels = (Labels ep)(OwnerLabelKey \<mapsto> owner p)
            in case createTargets p rt c dnsName (RecordType ep) ttl' (Targets ep) w of
                 (Some err, w1) \<Rightarrow> (Some err, w1)
               | (None, w1) \<Rightarrow>
                   if RecordType ep \<noteq> RecordTypeTXT then
                     (let txtVal = ''heritage=external-dns,external-dns/owner='' @ owner p @
                            (case labels ResourceLabelKey of
                               Some resource \<Rightarrow> '',external-dns/resource='' @ resource
                             | None \<Rightarrow> [])
                      in case createDNSRecord p rt c dnsName RecordTypeTXT txtVal ttl' w1 of
                           (Some err, w2) \<Rightarrow> (Some err, w2)
                         | (None, w2) \<Rightarrow> processCreateActions p rt c endpoints w2)
                   else processCreateActions p rt c endpoints w1))"

section \<open>Update path: the diff resolver\<close>

text \<open>
  \<open>current\<close> maps a value to the matching record that holds it (the last one, if several
  do). Each entry points to its own copy of the record: the loop variable of a Go
  \<^verbatim>\<open>range\<close> loop is a fresh variable per iteration from language version 1.22 on,
  which is the reading taken here (the service is built with the Go 1.24 toolchain).
  \<open>desired\<close> is the set of formatted target values.
\<close>

definition buildCurrent :: "DNSRecord list \<Rightarrow> (string \<times> DNSRecord) list" where
  "buildCurrent existingRecords =
     foldl (\<lambda>current rec. AList.update (Value rec) rec current) [] existingRecords"

definition buildDesired :: "string list \<Rightarrow> string \<Rightarrow> string list" where
  "buildDesired targets recordType = remdups (map (\<lambda>target. formatRecordValue target recordType) targets)"

definition currentOf ::
  "MyraSecDNSProvider \<Rightarrow> DNSRecord list \<Rightarrow> Endpoint \<Rightarrow> (string \<times> DNSRecord) list" where
  "currentOf p allRecords newEp =
     buildCurrent (findMatchingRecords allRecords (dnsNameOf p newEp) (RecordType newEp))"

definition desiredOf :: "Endpoint \<Rightarrow> string list" where
  "desiredOf newEp = buildDesired (Targets newEp) (RecordType newEp)"

definition drifted :: "MyraSecDNSProvider \<Rightarrow> string \<Rightarrow> int \<Rightarrow> DNSRecord \<Rightarrow> bool" where
  "drifted p dnsName ttl' rec \<longleftrightarrow>
     TTL rec \<noteq> ttl' \<or> Active rec \<noteq> (\<not> disableProtection p) \<or> Name rec \<noteq> dnsName"


text \<open>
  Step 1 of the source, over the entries of \<open>current\<close> in the order the runtime yields
  them. It returns what is left of \<open>desired\<close>.
\<close>

fun updateExisting ::
  "MyraSecDNSProvider \<Rightarrow> 's Client \<Rightarrow> string \<Rightarrow> int \<Rightarrow> (string \<times> DNSRecord) list \<Rightarrow>
   string list \<Rightarrow> 's world \<Rightarrow> error option \<times> string list \<times> 's world" where
  "updateExisting p c dnsName ttl' [] desired w = (None, desired, w)"
| "updateExisting p c dnsName ttl' ((val, rec) # rest) desired w =
     (if val \<in> set desired then
        (if drifted p dnsName ttl' rec then
           (let rec' = rec\<lparr>TTL := ttl', Active := (\<not> disableProtection p), Name := dnsName\<rparr>
            in case Atoi (domainId p) of
                 None \<Rightarrow> updateExisting p c dnsName ttl' rest desired w
               | Some domainID \<Rightarrow>
                   (case callUpdate c rec' domainID w of
                      (Some msg, w') \<Rightarrow> (Some (ApiError msg), desired, w')
                    | (None, w') \<Rightarrow>
                        updateExisting p c dnsName ttl' rest (removeAll val desired) w'))
         else updateExisting p c dnsName ttl' rest (removeAll val desired) w)
      else
        (case deleteDNSRecord p c rec w of
           (Some err, w') \<Rightarrow> (Some err, desired, w')
         | (None, w') \<Rightarrow> updateExisting p c dnsName ttl' rest desired w'))"

text \<open>Step 2 of the source: one create per value left in \<open>desired\<close>.\<close>

fun createMissing ::
  "MyraSecDNSProvider \<Rightarrow> Runtime \<Rightarrow> 's Client \<Rightarrow> string \<Rightarrow> string \<Rightarrow> int \<Rightarrow> string list \<Rightarrow>
   's world \<Rightarrow> error option \<times> 's world" where
  "createMissing p rt c dnsName recordType ttl' [] w = (None, w)"
| "createMissing p rt c dnsName recordType ttl' (val # vals) w =
     (case createDNSRecord p rt c dnsName recordType val ttl' w of
        (Some err, w') \<Rightarrow> (Some err, w')
      | (None, w') \<Rightarrow> createMissing p rt c dnsName recordType ttl' vals w')"

text \<open>The loop over the new endpoints, on the snapshot and its index of text records.\<close>

fun updateEndpoints ::
  "MyraSecDNSProvider \<Rightarrow> Runtime \<Rightarrow> 's Client \<Rightarrow> DNSRecord list \<Rightarrow> (string \<rightharpoonup> string) \<Rightarrow>
   Endpoint list \<Rightarrow> 's world \<Rightarrow> error option \<times> 's world" where
  "updateEndpoints p rt c allRecords txtRecords [] w = (None, w)"
| "updateEndpoints p rt c allRecords txtRecords (newEp # newEndpoints) w =
     (let dnsName = dnsNameOf p newEp
      in if isProduction rt \<and> isPrivateEndpoint rt newEp
         then updateEndpoints p rt c allRecords txtRecords newEndpoints w
         else
           (let ttl' = ttlOf p newEp
            in if \<not> ownershipCheck txtRecords (stripTrailingDot (DNSName newEp)) (owner p)
               then updateEndpoints p rt c allRecords txtRecords newEndpoints w
               else
                 (let current = currentOf p allRecords newEp;
                      desired = desiredOf newEp
                  in case updateExisting p c dnsName ttl' (rangeCurrent rt current) desired w of
                       (Some err, desired', w1) \<Rightarrow> (Some err, w1)
                     | (None, desired', w1) \<Rightarrow>
                         (case createMissing p rt c dnsName (RecordType newEp) ttl'
                                 (rangeDesired rt desired') w1 of
                            (Some err, w2) \<Rightarrow> (Some err, w2)
                          | (None, w2) \<Rightarrow>
                              updateEndpoints p rt c allRecords txtRecords newEndpoints w2))))"

text \<open>
  The old endpoints are a list of pointers that the function never follows; only the
  length of the list is read.
\<close>

definition processUpdateActions ::
  "MyraSecDNSProvider \<Rightarrow> Runtime \<Rightarrow> 's Client \<Rightarrow> Endpoint option list \<Rightarrow> Endpoint list \<Rightarrow>
   's world \<Rightarrow> error option \<times> 's world" where
  "processUpdateActions p rt c oldEndpoints newEndpoints w =
     (if length oldEndpoints \<noteq> length newEndpoints
      then (Some (MismatchedLists (length oldEndpoints) (length newEndpoints)), w)
      else (case Atoi (domainId p) of
              None \<Rightarrow> (Some (Wrapped ''invalid domain ID'' (AtoiError (domainId p))), w)
            | Some domainID \<Rightarrow>
                (case callList c domainID w of
                   (Inl msg, w') \<Rightarrow>
                     (Some (Wrapped ''failed to list DNS records for update'' (ApiError msg)), w')
                 | (Inr allRecords, w') \<Rightarrow>
                     updateEndpoints p rt c allRecords (indexTXT allRecords Map.empty)
                       newEndpoints w')))"

text \<open>
  The calls that the diff of \<open>current\<close> against \<open>desired\<close> allows for one endpoint: an
  update of a drifted record whose value is desired, with the corrected fields; a delete
  of a record whose value is not desired; a create of a desired value that no current
  record holds.
\<close>

fun plannedCall ::
  "MyraSecDNSProvider \<Rightarrow> string \<Rightarrow> string \<Rightarrow> int \<Rightarrow> (string \<times> DNSRecord) list \<Rightarrow> string list \<Rightarrow>
   call \<Rightarrow> bool" where
  "plannedCall p dnsName recordType ttl' current desired (UpdateCall r d) =
     list_ex (\<lambda>(val, rec). val \<in> set desired \<and> drifted p dnsName ttl' rec \<and>
                r = rec\<lparr>TTL := ttl', Active := (\<not> disableProtection p), Name := dnsName\<rparr>) current"
| "plannedCall p dnsName recordType ttl' current desired (DeleteCall r d) =
     list_ex (\<lambda>(val, rec). val \<notin> set desired \<and> r = rec) current"
| "plannedCall p dnsName recordType ttl' current desired (CreateCall r d) =
     list_ex (\<lambda>val. val \<notin> fst ` set current \<and> r = newRecord p dnsName recordType val ttl') desired"
| "plannedCall p dnsName recordType ttl' current desired ListDomainsCall = False"
| "plannedCall p dnsName recordType ttl' current desired (ListCall d) = False"

section \<open>Delete path\<close>

fun deleteMatching ::
  "MyraSecDNSProvider \<Rightarrow> 's Client \<Rightarrow> string list \<Rightarrow> DNSRecord list \<Rightarrow> 's world \<Rightarrow>
   error option \<times> 's world" where
  "deleteMatching p c targetsToDelete [] w = (None, w)"
| "deleteMatching p c targetsToDelete (record # records) w =
     (if Value record \<notin> set targetsToDelete then deleteMatching p c targetsToDelete records w
      else (case deleteDNSRecord p c record w of
              (Some err, w') \<Rightarrow> (Some err, w')
            | (None, w') \<Rightarrow> deleteMatching p c targetsToDelete records w'))"

fun deleteEndpoints ::
  "MyraSecDNSProvider \<Rightarrow> Runtime \<Rightarrow> 's Client \<Rightarrow> DNSRecord list \<Rightarrow> (string \<rightharpoonup> string) \<Rightarrow>
   Endpoint list \<Rightarrow> 's world \<Rightarrow> error option \<times> 's world" where
  "deleteEndpoints p rt c allRecords txtRecords [] w = (None, w)"
| "deleteEndpoints p rt c allRecords txtRecords (ep # endpoints) w =
     (let dnsName = dnsNameOf p ep
      in if isProduction rt \<and> isPrivateEndpoint rt ep
         then deleteEndpoints p rt c allRecords txtRecords endpoints w
         else if \<not> ownershipCheck txtRecords (stripTrailingDot (DNSName ep)) (owner p)
         then deleteEndpoints p rt c allRecords txtRecords endpoints w
         else
           (let matchingRecords = findMatchingRecords allRecords dnsName (RecordType ep)
            in if matchingRecords = [] then deleteEndpoints p rt c allRecords txtRecords endpoints w
               else
                 (let targetsToDelete = map (\<lambda>t. formatRecordValue t (RecordType ep)) (Targets ep)
                  in case deleteMatching p c targetsToDelete matchingRecords w of
                       (Some err, w') \<Rightarrow> (Some err, w')
                     | (None, w') \<Rightarrow> deleteEndpoints p rt c allRecords txtRecords endpoints w')))"

definition processDeleteActions ::
  "MyraSecDNSProvider \<Rightarrow> Runtime \<Rightarrow> 's Client \<Rightarrow> Endpoint list \<Rightarrow> 's world \<Rightarrow>
   error option \<times> 's world" where
  "processDeleteActions p rt c endpoints w =
     (if endpoints = [] then (None, w)
      else (case Atoi (domainId p) of
              None \<Rightarrow> (Some (Wrapped ''invalid domain ID'' (AtoiError (domainId p))), w)
            | Some domainID \<Rightarrow>
                (case callList c domainID w of
                   (Inl msg, w') \<Rightarrow>
                     (Some (Wrapped ''failed to list DNS records for deletion'' (ApiError msg)), w')
                 | (Inr allRecords, w') \<Rightarrow>
                     deleteEndpoints p rt c allRecords (indexTXT allRecords Map.empty)
                       endpoints w')))"

section \<open>Domain selection\<close>

definition GetDomains ::
  "MyraSecDNSProvider \<Rightarrow> 's Client \<Rightarrow> 's world \<Rightarrow>
   (error + Domain list) \<times> MyraSecDNSProvider \<times> 's world" where
  "GetDomains p c w =
     (if cachedDomains p \<noteq> [] then (Inr (cachedDomains p), p, w)
      else (case callListDomains c w of
              (Inl msg, w') \<Rightarrow> (Inl (Wrapped ''failed to list domains'' (ApiError msg)), p, w')
            | (Inr domains, w') \<Rightarrow>
                if filters p \<noteq> [] then
                  (let filteredDomains = filter (\<lambda>domain. filterMatch p (DomainName domain)) domains
                   in if filteredDomains = []
                      then (Inr domains, p\<lparr>cachedDomains := domains\<rparr>, w')
                      else (Inr filteredDomains, p\<lparr>cachedDomains := filteredDomains\<rparr>, w'))
                else (Inr domains, p\<lparr>cachedDomains := domains\<rparr>, w')))"

definition SelectDomain ::
  "MyraSecDNSProvider \<Rightarrow> 's Client \<Rightarrow> 's world \<Rightarrow>
   (error + Domain) \<times> MyraSecDNSProvider \<times> 's world" where
  "SelectDomain p c w =
     (case GetDomains p c w of
        (Inl err, p1, w1) \<Rightarrow> (Inl err, p1, w1)
      | (Inr domains, p1, w1) \<Rightarrow>
          (case domains of
             [] \<Rightarrow> (Inl ErrDomainNotFound, p1, w1)
           | firstDomain # _ \<Rightarrow>
               (let selectedDomain =
                      (case filters p1 of
                         filterName # _ \<Rightarrow>
                           (case find (\<lambda>domain. DomainName domain = filterName) domains of
                              Some domain \<Rightarrow> domain
                            | None \<Rightarrow> firstDomain)
                       | [] \<Rightarrow> firstDomain)
                in (Inr selectedDomain,
                    p1\<lparr>domainId := Itoa (DomainID selectedDomain),
                       domainName := DomainName selectedDomain\<rparr>,
                    w1))))"

section \<open>Task builder and executor\<close>

text \<open>What a worker does with one task it has taken from the queue.\<close>

definition runTask ::
  "MyraSecDNSProvider \<Rightarrow> Runtime \<Rightarrow> 's Client \<Rightarrow> changeTask \<Rightarrow> 's world \<Rightarrow>
   error option \<times> 's world" where
  "runTask p rt c task w =
     (if dryRun p then (None, w)
      else if action task = CREATE then processCreateActions p rt c [change task] w
      else if action task = UPDATE then processUpdateActions p rt c [oldChange task] [change task] w
      else if action task = DELETE then processDeleteActions p rt c [change task] w
      else (Some (UnknownAction (action task)), w))"

text \<open>
  The executor runs the tasks on up to four workers and returns the first failure it
  receives; on that failure it cancels the context, after which tasks not yet taken are
  no longer started. The embedding fixes one schedule of the workers: the tasks run one
  after the other in queue order, and no task starts after the first failure. The
  caller's context is taken not to be cancelled from outside.
\<close>

fun processTasksWithWorkers ::
  "MyraSecDNSProvider \<Rightarrow> Runtime \<Rightarrow> 's Client \<Rightarrow> changeTask list \<Rightarrow> 's world \<Rightarrow>
   error option \<times> 's world" where
  "processTasksWithWorkers p rt c [] w = (None, w)"
| "processTasksWithWorkers p rt c (task # tasks) w =
     (case runTask p rt c task w of
        (Some err, w') \<Rightarrow> (Some err, w')
      | (None, w') \<Rightarrow> processTasksWithWorkers p rt c tasks w')"

definition buildTasks :: "Changes \<Rightarrow> changeTask list" where
  "buildTasks changes =
     map (\<lambda>endpoint. \<lparr>action = CREATE, change = endpoint, oldChange = None\<rparr>) (Create changes) @
     map (\<lambda>(old, endpoint). \<lparr>action = UPDATE, change = endpoint, oldChange = Some old\<rparr>)
         (zip (UpdateOld changes) (UpdateNew changes)) @
     map (\<lambda>endpoint. \<lparr>action = DELETE, change = endpoint, oldChange = None\<rparr>) (Delete changes)"

definition ApplyChangesWithWorkers ::
  "MyraSecDNSProvider \<Rightarrow> Runtime \<Rightarrow> 's Client \<Rightarrow> Changes \<Rightarrow> 's world \<Rightarrow>
   error option \<times> MyraSecDNSProvider \<times> 's world" where
  "ApplyChangesWithWorkers p rt c changes w =
     (if length (UpdateOld changes) \<noteq> length (UpdateNew changes)
      then (Some ErrUpdateSlicesMismatch, p, w)
      else if Create changes = [] \<and> UpdateNew changes = [] \<and> Delete changes = []
      then (None, p, w)
      else (case SelectDomain p c w of
              (Inl err, p1, w1) \<Rightarrow> (Some err, p1, w1)
            | (Inr selectedDomain, p1, w1) \<Rightarrow>
                (let p2 = p1\<lparr>domainName := DomainName selectedDomain\<rparr>
                 in case processTasksWithWorkers p2 rt c (buildTasks changes) w1 of
                      (res, w2) \<Rightarrow> (res, p2, w2))))"

definition ApplyChanges ::
  "MyraSecDNSProvider \<Rightarrow> Runtime \<Rightarrow> 's Client \<Rightarrow> Changes \<Rightarrow> 's world \<Rightarrow>
   error option \<times> MyraSecDNSProvider \<times> 's world" where
  "ApplyChanges p rt c changes w = ApplyChangesWithWorkers p rt c changes w"

section \<open>A record store as backend\<close>

text \<open>
  The concrete runs below need a backend. \<open>storeClient\<close> is an in-memory record store
  for the domains it is given: it lists what it holds, rejects the creation of a record
  whose name, kind and value it already holds with the text the provider looks for,
  numbers new records, and updates and deletes by identifier. It stands for the remote
  service in examples only; every theorem that does not name it holds for every client.
\<close>

definition nextID :: "DNSRecord list \<Rightarrow> int" where
  "nextID store = fold max (map ID store) 0 + 1"

definition storeClient :: "Domain list \<Rightarrow> (DNSRecord list) Client" where
  "storeClient domains =
     \<lparr>ListDomains = (\<lambda>store. (Inr domains, store)),
      ListDNSRecords = (\<lambda>d store. (Inr store, store)),
      CreateDNSRecord = (\<lambda>r d store.
         if list_ex (\<lambda>r'. Name r' = Name r \<and> RecType r' = RecType r \<and> Value r' = Value r) store
         then (Some ''This value is already used'', store)
         else (None, store @ [r\<lparr>ID := nextID store\<rparr>])),
      UpdateDNSRecord = (\<lambda>r d store.
         if list_ex (\<lambda>r'. ID r' = ID r) store
         then (None, map (\<lambda>r'. if ID r' = ID r then r else r') store)
         else (Some ''record not found'', store)),
      DeleteDNSRecord = (\<lambda>r d store.
         if list_ex (\<lambda>r'. ID r' = ID r) store
         then (None, filter (\<lambda>r'. ID r' \<noteq> ID r) store)
         else (Some ''record not found'', store))\<rparr>"

definition exampleProvider :: MyraSecDNSProvider where
  "exampleProvider =
     \<lparr>filters = [], filterMatch = (\<lambda>name. True), domainId = ''123'',
      domainName = ''example.com'', dryRun = False, cachedDomains = [], ttl = 300,
      owner = ''external-dns'', disableProtection = False\<rparr>"

definition exampleDomains :: "Domain list" where
  "exampleDomains = [\<lparr>DomainID = 123, DomainName = ''example.com''\<rparr>]"

definition runtimeWith :: "string \<Rightarrow> Runtime" where
  "runtimeWith env =
     \<lparr>ENV = env, ParseIP = parseDottedIPv4, rangeCurrent = (\<lambda>m. m), rangeDesired = (\<lambda>d. d)\<rparr>"

definition emptyWorld :: "(DNSRecord list) world" where
  "emptyWorld = \<lparr>backend = [], calls = []\<rparr>"

text \<open>
  Two conditions on a client: every failure of a create call is the duplicate rejection
  (its text contains what \<^verbatim>\<open>createDNSRecord\<close> looks for), and the listing, update and
  delete calls do not fail. \<open>rejectingClient\<close> is a client that rejects every creation
  as a duplicate and accepts everything else.
\<close>

definition onlyDuplicateFailures :: "'s Client \<Rightarrow> bool" where
  "onlyDuplicateFailures c \<longleftrightarrow>
     (\<forall>r d s. case fst (CreateDNSRecord c r d s) of
                 None \<Rightarrow> True
               | Some msg \<Rightarrow> contains msg ''This value is already used'')"

definition othersSucceed :: "'s Client \<Rightarrow> bool" where
  "othersSucceed c \<longleftrightarrow>
     (\<forall>d s. \<exists>records. fst (ListDNSRecords c d s) = Inr records) \<and>
     (\<forall>r d s. fst (UpdateDNSRecord c r d s) = None) \<and>
     (\<forall>r d s. fst (DeleteDNSRecord c r d s) = None)"

definition rejectingClient :: "Domain list \<Rightarrow> (DNSRecord list) Client" where
  "rejectingClient domains =
     \<lparr>ListDomains = (\<lambda>store. (Inr domains, store)),
      ListDNSRecords = (\<lambda>d store. (Inr store, store)),
      CreateDNSRecord = (\<lambda>r d store. (Some ''This value is already used'', store)),
      UpdateDNSRecord = (\<lambda>r d store. (None, store)),
      DeleteDNSRecord = (\<lambda>r d store. (None, store))\<rparr>"

text \<open>
  A world in which \<open>app.example.com\<close> is owned by the example provider and holds two
  address records, and an endpoint that keeps one of the two values and asks for a new one.
\<close>

definition ownedWorld :: "(DNSRecord list) world" where
  "ownedWorld =
     \<lparr>backend =
        [\<lparr>ID = 1, Name = ''app.example.com'', Value = ''8.8.8.8'', RecType = ''A'',
          Active = True, Enabled = True, TTL = 300\<rparr>,
         \<lparr>ID = 2, Name = ''app.example.com'', Value = ''1.1.1.1'', RecType = ''A'',
          Active = True, Enabled = True, TTL = 300\<rparr>,
         \<lparr>ID = 3, Name = ''app.example.com'',
          Value = ''heritage=external-dns,external-dns/owner=external-dns'', RecType = ''TXT'',
          Active = True, Enabled = True, TTL = 300\<rparr>],
      calls = []\<rparr>"

definition updatedEndpoint :: Endpoint where
  "updatedEndpoint = \<lparr>DNSName = ''app.example.com'', Targets = [''8.8.8.8'', ''9.9.9.9''],
              RecordType = ''A'', RecordTTL = 0, Labels = Map.empty\<rparr>"

text \<open>
  A world in which \<open>app.example.com\<close> carries the token of another instance, whose owner
  identifier is \<open>external-dns-b\<close>.
\<close>

definition foreignWorld :: "(DNSRecord list) world" where
  "foreignWorld =
     \<lparr>backend =
        [\<lparr>ID = 1, Name = ''app.example.com'', Value = ''8.8.8.8'', RecType = ''A'',
          Active = True, Enabled = True, TTL = 300\<rparr>,
         \<lparr>ID = 2, Name = ''app.example.com'',
          Value = ''heritage=external-dns,external-dns/owner=external-dns-b'', RecType = ''TXT'',
          Active = True, Enabled = True, TTL = 300\<rparr>],
      calls = []\<rparr>"

text \<open>Endpoints of the concrete runs.\<close>

definition update1 :: Endpoint where
  "update1 = \<lparr>DNSName = ''update1.example.com'', Targets = [''192.168.1.1''],
              RecordType = ''A'', RecordTTL = 0, Labels = Map.empty\<rparr>"

definition publicEndpoint :: Endpoint where
  "publicEndpoint = \<lparr>DNSName = ''app.example.com'', Targets = [''8.8.8.8''],
              RecordType = ''A'', RecordTTL = 0, Labels = Map.empty\<rparr>"

definition mixedEndpoint :: Endpoint where
  "mixedEndpoint = \<lparr>DNSName = ''app.example.com'', Targets = [''10.0.0.1'', ''8.8.8.8''],
              RecordType = ''A'', RecordTTL = 0, Labels = Map.empty\<rparr>"





section \<open>Properties of the value formatter\<close>

lemma replaceAll_absent: "old \<notin> set s \<Longrightarrow> replaceAll s old new = s"
  by (induction s) (auto simp: replaceAll_def)

lemma set_replaceAll:
  "set (replaceAll s old new) = (set s - {old}) \<union> (if old \<in> set s then set new else {})"
  by (induction s) (auto simp: replaceAll_def)

lemma replaceAll_Nil [simp]: "replaceAll [] old new = []"
  by (simp add: replaceAll_def)

lemma hd_replaceAll:
  "s \<noteq> [] \<Longrightarrow> hd s \<noteq> old \<Longrightarrow> replaceAll s old new \<noteq> [] \<and> hd (replaceAll s old new) = hd s"
  by (cases s) (auto simp: replaceAll_def)

lemma last_replaceAll:
  "s \<noteq> [] \<Longrightarrow> last s \<noteq> old \<Longrightarrow>
   replaceAll s old new \<noteq> [] \<and> last (replaceAll s old new) = last s"
  by (induction s) (auto simp: replaceAll_def)

lemma replaceAll_append:
  "replaceAll (a @ b) old new = replaceAll a old new @ replaceAll b old new"
  by (simp add: replaceAll_def)

lemma ends_replaceAll_space:
  assumes "w \<noteq> []" "hd w \<noteq> CHR 0x27" "last w \<noteq> CHR 0x27"
  shows "replaceAll w old '' '' \<noteq> [] \<and> hd (replaceAll w old '' '') \<noteq> CHR 0x27
         \<and> last (replaceAll w old '' '') \<noteq> CHR 0x27"
proof -
  obtain a as where w: "w = a # as" using assms(1) by (cases w) auto
  have front: "replaceAll w old '' '' = (if a = old then '' '' else [a]) @ replaceAll as old '' ''"
    by (simp add: w replaceAll_def)
  have ne: "replaceAll w old '' '' \<noteq> []" using front by simp
  have h: "hd (replaceAll w old '' '') \<noteq> CHR 0x27"
    using front assms(2) w by simp
  have "w = butlast w @ [last w]" using assms(1) by simp
  then have "replaceAll w old '' '' =
      replaceAll (butlast w) old '' '' @ replaceAll [last w] old '' ''"
    by (metis replaceAll_append)
  then have "last (replaceAll w old '' '') = (if last w = old then CHR '' '' else last w)"
    by (simp add: replaceAll_def)
  then have l: "last (replaceAll w old '' '') \<noteq> CHR 0x27"
    using assms(3) by simp
  show ?thesis using ne h l by simp
qed

lemma trim_ends:
  "trim s cs \<noteq> [] \<Longrightarrow> hd (trim s cs) \<notin> cs \<and> last (trim s cs) \<notin> cs"
proof -
  assume ne: "trim s cs \<noteq> []"
  let ?a = "dropWhile (\<lambda>c. c \<in> cs) s"
  let ?b = "dropWhile (\<lambda>c. c \<in> cs) (rev ?a)"
  have b_ne: "?b \<noteq> []" using ne by (simp add: trim_def)
  then have hb: "hd ?b \<notin> cs" using hd_dropWhile by blast
  have "last (trim s cs) = hd ?b" using b_ne by (simp add: trim_def last_rev)
  then have l: "last (trim s cs) \<notin> cs" using hb by simp
  have a_ne: "?a \<noteq> []"
  proof
    assume a: "?a = []"
    have "?b = []" unfolding a by simp
    with b_ne show False by simp
  qed
  then have ha: "hd ?a \<notin> cs" using hd_dropWhile by blast
  obtain pre where "rev ?a = pre @ ?b"
    by (metis takeWhile_dropWhile_id)
  then have "?a = rev ?b @ rev pre" by (metis rev_append rev_rev_ident)
  then have "hd ?a = hd (rev ?b)" using b_ne by (metis hd_append2 rev_is_Nil_conv)
  then have "hd (trim s cs) \<notin> cs" using ha by (simp add: trim_def)
  then show ?thesis using l by simp
qed

lemma trim_id:
  "s = [] \<or> (hd s \<notin> cs \<and> last s \<notin> cs) \<Longrightarrow> trim s cs = s"
proof (cases s)
  case Nil
  then show ?thesis by (simp add: trim_def)
next
  case (Cons a as)
  assume "s = [] \<or> (hd s \<notin> cs \<and> last s \<notin> cs)"
  then have h: "hd s \<notin> cs" and l: "last s \<notin> cs" using Cons by auto
  have 1: "dropWhile (\<lambda>c. c \<in> cs) s = s" using h Cons by simp
  have "hd (rev s) = last s" by (rule hd_rev)
  then have "rev s \<noteq> []" "hd (rev s) \<notin> cs" using l Cons by simp_all
  then have 2: "dropWhile (\<lambda>c. c \<in> cs) (rev s) = rev s" by (cases "rev s") auto
  show ?thesis by (simp add: trim_def 1 2)
qed

lemma formatTXTValue_shape:
  "CHR 0x22 \<notin> set (formatTXTValue v) \<and> CHR 0x0A \<notin> set (formatTXTValue v) \<and>
   CHR 0x0D \<notin> set (formatTXTValue v) \<and> CHR 0x09 \<notin> set (formatTXTValue v) \<and>
   (formatTXTValue v = [] \<or>
      (hd (formatTXTValue v) \<noteq> CHR 0x27 \<and> last (formatTXTValue v) \<noteq> CHR 0x27))"
proof -
  define t where "t = trim v {CHR 0x22, CHR 0x27}"
  define v2 where "v2 = replaceAll t (CHR 0x22) []"
  define v3 where "v3 = replaceAll v2 (CHR 0x0A) '' ''"
  define v4 where "v4 = replaceAll v3 (CHR 0x0D) '' ''"
  define v5 where "v5 = replaceAll v4 (CHR 0x09) '' ''"
  have f: "formatTXTValue v = v5"
    by (simp add: formatTXTValue_def Let_def t_def v2_def v3_def v4_def v5_def)
  have s2: "CHR 0x22 \<notin> set v2" by (simp add: v2_def set_replaceAll)
  have s3: "CHR 0x22 \<notin> set v3 \<and> CHR 0x0A \<notin> set v3"
    using s2 by (simp add: v3_def set_replaceAll)
  have s4: "CHR 0x22 \<notin> set v4 \<and> CHR 0x0A \<notin> set v4 \<and> CHR 0x0D \<notin> set v4"
    using s3 by (simp add: v4_def set_replaceAll)
  have s5: "CHR 0x22 \<notin> set v5 \<and> CHR 0x0A \<notin> set v5 \<and> CHR 0x0D \<notin> set v5 \<and> CHR 0x09 \<notin> set v5"
    using s4 by (simp add: v5_def set_replaceAll)
  have ends: "v5 = [] \<or> (hd v5 \<noteq> CHR 0x27 \<and> last v5 \<noteq> CHR 0x27)"
  proof (cases "t = []")
    case True
    then show ?thesis by (simp add: v2_def v3_def v4_def v5_def)
  next
    case False
    then have e: "hd t \<notin> {CHR 0x22, CHR 0x27}" "last t \<notin> {CHR 0x22, CHR 0x27}"
      using trim_ends [of v "{CHR 0x22, CHR 0x27}"] by (auto simp: t_def)
    have q2: "v2 \<noteq> [] \<and> hd v2 = hd t \<and> last v2 = last t"
      using False e hd_replaceAll [of t "CHR 0x22" "[]"] last_replaceAll [of t "CHR 0x22" "[]"]
      by (simp add: v2_def)
    have r: "w \<noteq> [] \<Longrightarrow> hd w \<noteq> CHR 0x27 \<Longrightarrow> last w \<noteq> CHR 0x27 \<Longrightarrow>
             replaceAll w old '' '' \<noteq> [] \<and> hd (replaceAll w old '' '') \<noteq> CHR 0x27
             \<and> last (replaceAll w old '' '') \<noteq> CHR 0x27" for w old
      by (rule ends_replaceAll_space)
    have q3: "v3 \<noteq> [] \<and> hd v3 \<noteq> CHR 0x27 \<and> last v3 \<noteq> CHR 0x27"
      using q2 e r [of v2 "CHR 0x0A"] by (simp add: v3_def)
    have q4: "v4 \<noteq> [] \<and> hd v4 \<noteq> CHR 0x27 \<and> last v4 \<noteq> CHR 0x27"
      using q3 r [of v3 "CHR 0x0D"] by (simp add: v4_def)
    have q5: "v5 \<noteq> [] \<and> hd v5 \<noteq> CHR 0x27 \<and> last v5 \<noteq> CHR 0x27"
      using q4 r [of v4 "CHR 0x09"] by (simp add: v5_def)
    then show ?thesis by simp
  qed
  show ?thesis using s5 ends by (simp add: f)
qed

lemma formatTXTValue_fixed:
  assumes "CHR 0x22 \<notin> set s" "CHR 0x0A \<notin> set s" "CHR 0x0D \<notin> set s" "CHR 0x09 \<notin> set s"
    and "s = [] \<or> (hd s \<noteq> CHR 0x27 \<and> last s \<noteq> CHR 0x27)"
  shows "formatTXTValue s = s"
proof -
  have "s = [] \<or> (hd s \<notin> {CHR 0x22, CHR 0x27} \<and> last s \<notin> {CHR 0x22, CHR 0x27})"
  proof (cases "s = []")
    case True then show ?thesis by simp
  next
    case False
    then have "hd s \<in> set s" "last s \<in> set s" by simp_all
    then have "hd s \<noteq> CHR 0x22" "last s \<noteq> CHR 0x22" using assms(1) by auto
    then show ?thesis using assms(5) False by simp
  qed
  then have t: "trim s {CHR 0x22, CHR 0x27} = s" by (rule trim_id)
  show ?thesis
    using assms(1-4) by (simp add: formatTXTValue_def Let_def t replaceAll_absent)
qed

text \<open>
  C10. The text-record value formatter is idempotent: formatting a value that has already
  been formatted changes nothing. The output of the first pass contains no double quote,
  newline, carriage return or tab, and it neither starts nor ends with a quote character,
  so the second pass trims and replaces nothing.
\<close>

theorem formatTXTValue_idempotent:
  "formatTXTValue (formatTXTValue v) = formatTXTValue v"
  using formatTXTValue_shape [of v] by (intro formatTXTValue_fixed) simp_all

lemma formatRecordValue_idempotent:
  "formatRecordValue (formatRecordValue v t) t = formatRecordValue v t"
proof (cases "t = RecordTypeTXT")
  case True
  have "formatTXTValue (formatTXTValue v) = formatTXTValue v"
    using formatTXTValue_shape [of v] by (intro formatTXTValue_fixed) simp_all
  then show ?thesis using True by (simp add: formatRecordValue_def)
next
  case False
  then show ?thesis by (simp add: formatRecordValue_def)
qed

section \<open>Properties of the text conversions\<close>

lemma contains_iff: "contains s sub \<longleftrightarrow> (\<exists>a b. s = a @ sub @ b)"
proof (induction s)
  case Nil
  then show ?case by auto
next
  case (Cons c cs)
  have pre: "hasPrefix (c # cs) sub \<longleftrightarrow> (\<exists>b. c # cs = sub @ b)"
  proof
    assume "hasPrefix (c # cs) sub"
    then have "c # cs = sub @ drop (length sub) (c # cs)"
      unfolding hasPrefix_def by (metis append_take_drop_id)
    then show "\<exists>b. c # cs = sub @ b" ..
  next
    assume "\<exists>b. c # cs = sub @ b"
    then obtain b where "c # cs = sub @ b" ..
    then show "hasPrefix (c # cs) sub" unfolding hasPrefix_def by (metis append_eq_conv_conj)
  qed
  show ?case
  proof
    assume "contains (c # cs) sub"
    then consider "hasPrefix (c # cs) sub" | "contains cs sub" by auto
    then show "\<exists>a b. c # cs = a @ sub @ b"
    proof cases
      case 1
      then obtain b where "c # cs = sub @ b" using pre by blast
      then have "c # cs = [] @ sub @ b" by simp
      then show ?thesis by blast
    next
      case 2
      then obtain a b where "cs = a @ sub @ b" using Cons.IH by blast
      then have "c # cs = (c # a) @ sub @ b" by simp
      then show ?thesis by blast
    qed
  next
    assume "\<exists>a b. c # cs = a @ sub @ b"
    then obtain a b where ab: "c # cs = a @ sub @ b" by blast
    show "contains (c # cs) sub"
    proof (cases a)
      case Nil
      then have "c # cs = sub @ b" using ab by simp
      then have "hasPrefix (c # cs) sub" using pre by blast
      then show ?thesis by simp
    next
      case (Cons a0 as)
      then have "cs = as @ sub @ b" using ab by simp
      then have "contains cs sub" using Cons.IH by blast
      then show ?thesis by simp
    qed
  qed
qed

lemma digit_cases: "d < 10 \<Longrightarrow> d \<in> {0, 1, 2, 3, 4, 5, 6, 7, 8, 9::nat}"
  by auto

lemma digitVal_digitChar: "d < 10 \<Longrightarrow> digitVal (digitChar d) = Some (int d)"
  using digit_cases [of d] by (auto simp: digitVal_def digitChar_def)

lemma digitChar_not_sign: "d < 10 \<Longrightarrow> digitChar d \<noteq> CHR ''-'' \<and> digitChar d \<noteq> CHR ''+''"
  using digit_cases [of d] by (auto simp: digitChar_def)

lemma parseDigits_snoc:
  "parseDigits (s @ [c]) acc =
     (case parseDigits s acc of
        None \<Rightarrow> None
      | Some n \<Rightarrow> (case digitVal c of None \<Rightarrow> None | Some d \<Rightarrow> Some (n * 10 + d)))"
  by (induction s arbitrary: acc) (auto split: option.splits)

lemma natToDec_shape:
  "natToDec n \<noteq> [] \<and> hd (natToDec n) \<noteq> CHR ''-'' \<and> hd (natToDec n) \<noteq> CHR ''+''"
proof (induction n rule: natToDec.induct)
  case (1 n)
  show ?case
  proof (cases "n < 10")
    case True
    have "natToDec n = [digitChar n]" using True by simp
    then show ?thesis using digitChar_not_sign [OF True] by simp
  next
    case False
    have "natToDec n = natToDec (n div 10) @ [digitChar (n mod 10)]" using False by simp
    then show ?thesis using 1 [OF False] by simp
  qed
qed

lemma parseDigits_natToDec: "parseDigits (natToDec n) 0 = Some (int n)"
proof (induction n rule: natToDec.induct)
  case (1 n)
  show ?case
  proof (cases "n < 10")
    case True
    have "natToDec n = [digitChar n]" using True by simp
    then show ?thesis using digitVal_digitChar [OF True] by simp
  next
    case False
    have e: "natToDec n = natToDec (n div 10) @ [digitChar (n mod 10)]" using False by simp
    have d: "digitVal (digitChar (n mod 10)) = Some (int (n mod 10))"
      by (rule digitVal_digitChar) simp
    have "parseDigits (natToDec n) 0 = Some (int (n div 10) * 10 + int (n mod 10))"
      using 1 [OF False] d by (simp only: e parseDigits_snoc option.case)
    also have "int (n div 10) * 10 + int (n mod 10) = int n"
      by (metis mult.commute of_nat_add of_nat_mult of_nat_numeral div_mult_mod_eq mult.commute)
    finally show ?thesis .
  qed
qed

lemma Atoi_Itoa: "Atoi (Itoa i) = Some i"
proof (cases "sint i < 0")
  case True
  define n where "n = nat (- sint i)"
  have it: "Itoa i = CHR ''-'' # natToDec n" using True by (simp add: Itoa_def n_def)
  have ne: "natToDec n \<noteq> []" using natToDec_shape by blast
  have pd: "parseDigits (natToDec n) 0 = Some (int n)" by (rule parseDigits_natToDec)
  have lo: "- (2 ^ 63) \<le> sint i" using sint_ge [of i] by simp
  have n_eq: "int n = - sint i" using True by (simp add: n_def)
  have le: "int n \<le> 2 ^ 63" using lo n_eq by simp
  have "Atoi (Itoa i) = Some (word_of_int (- int n))"
    using ne pd le by (simp add: Atoi_def it Let_def)
  also have "word_of_int (- int n) = i" using n_eq by simp
  finally show ?thesis .
next
  case False
  define n where "n = nat (sint i)"
  have it: "Itoa i = natToDec n" using False by (simp add: Itoa_def n_def)
  have sh: "natToDec n \<noteq> []" "hd (natToDec n) \<noteq> CHR ''-''" "hd (natToDec n) \<noteq> CHR ''+''"
    using natToDec_shape by blast+
  have pd: "parseDigits (natToDec n) 0 = Some (int n)" by (rule parseDigits_natToDec)
  have hi: "sint i < 2 ^ 63" using sint_lt [of i] by simp
  have n_eq: "int n = sint i" using False by (simp add: n_def)
  have lt: "int n < 2 ^ 63" using hi n_eq by simp
  have "Atoi (Itoa i) = Some (word_of_int (int n))"
    using sh pd lt by (simp add: Atoi_def it Let_def)
  also have "word_of_int (int n) = i" using n_eq by simp
  finally show ?thesis .
qed

section \<open>The ownership predicate\<close>

text \<open>
  C3. The claim asks for an exact comparison of the owner identifier, and the code falls
  short of it: \<^verbatim>\<open>isOwnedByExternalDNS\<close> looks for the text \<open>external-dns/owner=\<close>
  followed by the configured identifier anywhere in the token, where its sibling
  \<^verbatim>\<open>extractResourceFromTXT\<close> reads the token field by field. With the owner that the
  constructor sets, \<open>external-dns\<close>, the token of another instance whose owner is
  \<open>external-dns-b\<close> passes the check, and the delete task of the first instance deletes
  the address record that the other instance owns.
\<close>

theorem ownership_accepts_longer_owner:
  "owner exampleProvider = ''external-dns''
   \<and> ''external-dns-b'' \<noteq> owner exampleProvider
   \<and> isOwnedByExternalDNS ''heritage=external-dns,external-dns/owner=external-dns-b''
        (owner exampleProvider)
   \<and> issued foreignWorld
        (snd (processDeleteActions exampleProvider (runtimeWith ''dev'')
                (storeClient exampleDomains) [publicEndpoint] foreignWorld)) =
      [ListCall 123,
       DeleteCall \<lparr>ID = 1, Name = ''app.example.com'', Value = ''8.8.8.8'', RecType = ''A'',
                    Active = True, Enabled = True, TTL = 300\<rparr> 123]"
  by code_simp

section \<open>Validation of the batch\<close>

text \<open>
  C6. A batch whose old and new update lists differ in length is rejected with the
  validation error before anything else happens: the world is returned as it was, so no
  backend call is issued, not even the listing of the domains, and the provider is
  unchanged.
\<close>

theorem ApplyChanges_rejects_unequal_updates:
  "length (UpdateOld changes) \<noteq> length (UpdateNew changes) \<Longrightarrow>
   ApplyChanges p rt c changes w = (Some ErrUpdateSlicesMismatch, p, w)"
  by (simp add: ApplyChanges_def ApplyChangesWithWorkers_def)

theorem ApplyChanges_rejects_unequal_updates_witness:
  "ApplyChanges exampleProvider (runtimeWith ''prod'') (storeClient exampleDomains)
     \<lparr>Create = [], UpdateOld = [update1, update1], UpdateNew = [update1], Delete = []\<rparr> emptyWorld
   = (Some ErrUpdateSlicesMismatch, exampleProvider, emptyWorld)"
  using ApplyChanges_rejects_unequal_updates
    [of "\<lparr>Create = [], UpdateOld = [update1, update1], UpdateNew = [update1], Delete = []\<rparr>"
        exampleProvider "runtimeWith ''prod''" "storeClient exampleDomains" emptyWorld]
  by simp

section \<open>The previous endpoints\<close>

text \<open>
  C9. The old endpoints of an update are informational only: with the same new endpoints,
  the same world (hence the same backend snapshot) and old lists of the same length, the
  update path issues the same calls and returns the same result, whatever the old
  endpoints contain.
\<close>

theorem processUpdateActions_ignores_old:
  "length oldEndpoints1 = length oldEndpoints2 \<Longrightarrow>
   processUpdateActions p rt c oldEndpoints1 newEndpoints w =
   processUpdateActions p rt c oldEndpoints2 newEndpoints w"
  by (simp add: processUpdateActions_def)

theorem processUpdateActions_ignores_old_witness:
  "processUpdateActions exampleProvider (runtimeWith ''prod'') (storeClient exampleDomains)
     [Some update1] [publicEndpoint] emptyWorld =
   processUpdateActions exampleProvider (runtimeWith ''prod'') (storeClient exampleDomains)
     [None] [publicEndpoint] emptyWorld"
  using processUpdateActions_ignores_old [of "[Some update1]" "[None]"] by simp

section \<open>Skipped endpoints\<close>



lemma updateEndpoints_private:
  "isProduction rt \<Longrightarrow> \<forall>ep\<in>set eps. isPrivateEndpoint rt ep \<Longrightarrow>
   updateEndpoints p rt c allRecords txtRecords eps w = (None, w)"
  by (induction eps) (simp_all add: Let_def)

lemma deleteEndpoints_private:
  "isProduction rt \<Longrightarrow> \<forall>ep\<in>set eps. isPrivateEndpoint rt ep \<Longrightarrow>
   deleteEndpoints p rt c allRecords txtRecords eps w = (None, w)"
  by (induction eps) (simp_all add: Let_def)

lemma processCreateActions_private:
  "isProduction rt \<Longrightarrow> \<forall>ep\<in>set eps. isPrivateEndpoint rt ep \<Longrightarrow>
   processCreateActions p rt c eps w = (None, w)"
  by (induction eps) (simp_all add: Let_def)




text \<open>
  C2, as stated, fails: the safety policy works on the endpoint, not on the single value.
  In production the create task for an address endpoint with the targets \<open>10.0.0.1\<close> and
  \<open>8.8.8.8\<close> issues no call at all, although \<open>8.8.8.8\<close> is not a private address.
\<close>

theorem private_value_blocks_endpoint_counterexample:
  "isProduction (runtimeWith ''prod'')
   \<and> isPrivateIP (runtimeWith ''prod'') ''10.0.0.1''
   \<and> \<not> isPrivateIP (runtimeWith ''prod'') ''8.8.8.8''
   \<and> processCreateActions exampleProvider (runtimeWith ''prod'') (storeClient exampleDomains)
        [mixedEndpoint] emptyWorld = (None, emptyWorld)"
  by code_simp

text \<open>
  C2, amended: in a production-like environment an endpoint of kind A or AAAA with at
  least one target that parses as a private-range or loopback address is skipped as a
  whole, on the create, the update and the delete path: no create, update or delete call
  is issued for any of its values, the private ones and the others, and no error is
  returned. The create path issues no call at all; the update and delete paths issue
  only the listing call of their snapshot.
\<close>

theorem private_endpoints_are_skipped:
  assumes "isProduction rt" and "\<forall>ep\<in>set eps. isPrivateEndpoint rt ep"
    and "Atoi (domainId p) = Some d"
    and "ListDNSRecords c d (backend w) = (Inr allRecords, s')"
    and "length olds = length eps" and "eps \<noteq> []"
  shows "processCreateActions p rt c eps w = (None, w)
       \<and> processUpdateActions p rt c olds eps w =
           (None, \<lparr>backend = s', calls = calls w @ [ListCall d]\<rparr>)
       \<and> processDeleteActions p rt c eps w =
           (None, \<lparr>backend = s', calls = calls w @ [ListCall d]\<rparr>)"
  using assms
  by (simp add: processUpdateActions_def processDeleteActions_def callList_def
      updateEndpoints_private deleteEndpoints_private processCreateActions_private)

theorem private_endpoints_are_skipped_witness:
  "processCreateActions exampleProvider (runtimeWith ''prod'') (storeClient exampleDomains)
     [mixedEndpoint] emptyWorld = (None, emptyWorld)
   \<and> processUpdateActions exampleProvider (runtimeWith ''prod'') (storeClient exampleDomains)
     [None] [mixedEndpoint] emptyWorld = (None, \<lparr>backend = [], calls = [ListCall 123]\<rparr>)
   \<and> processDeleteActions exampleProvider (runtimeWith ''prod'') (storeClient exampleDomains)
     [mixedEndpoint] emptyWorld = (None, \<lparr>backend = [], calls = [ListCall 123]\<rparr>)"
proof -
  have pr: "isProduction (runtimeWith ''prod'')" by code_simp
  have pe: "\<forall>ep\<in>set [mixedEndpoint]. isPrivateEndpoint (runtimeWith ''prod'') ep"
    by code_simp
  have a: "Atoi (domainId exampleProvider) = Some 123" by code_simp
  have l: "ListDNSRecords (storeClient exampleDomains) 123 (backend emptyWorld) = (Inr [], [])"
    by (simp add: storeClient_def emptyWorld_def)
  show ?thesis
    using private_endpoints_are_skipped [OF pr pe a l, of "[None]"]
    by (simp add: emptyWorld_def)
qed

section \<open>Tasks that cannot fail\<close>

lemma createDNSRecord_ok:
  assumes "onlyDuplicateFailures c" and "Atoi (domainId p) = Some d"
  shows "\<exists>w'. createDNSRecord p rt c dnsName recordType v t w = (None, w')"
proof -
  let ?r = "newRecord p dnsName recordType v t"
  obtain e s' where cr: "CreateDNSRecord c ?r d (backend w) = (e, s')" by fastforce
  have ok: "case e of None \<Rightarrow> True | Some msg \<Rightarrow> contains msg ''This value is already used''"
    using assms(1) cr unfolding onlyDuplicateFailures_def by (metis fst_conv)
  show ?thesis
    using ok cr assms(2)
    by (cases e) (simp_all add: createDNSRecord_def callCreate_def Let_def)
qed

lemma createTargets_ok:
  assumes "onlyDuplicateFailures c" and "Atoi (domainId p) = Some d"
  shows "\<exists>w'. createTargets p rt c dnsName recordType t targets w = (None, w')"
proof (induction targets arbitrary: w)
  case Nil
  then show ?case by simp
next
  case (Cons target targets)
  obtain w1 where
    "createDNSRecord p rt c dnsName recordType (formatRecordValue target recordType) t w = (None, w1)"
    using createDNSRecord_ok [OF assms] by blast
  then show ?case using Cons.IH [of w1] by (simp add: Let_def)
qed

lemma createMissing_ok:
  assumes "onlyDuplicateFailures c" and "Atoi (domainId p) = Some d"
  shows "\<exists>w'. createMissing p rt c dnsName recordType t vals w = (None, w')"
proof (induction vals arbitrary: w)
  case Nil
  then show ?case by simp
next
  case (Cons val vals)
  obtain w1 where "createDNSRecord p rt c dnsName recordType val t w = (None, w1)"
    using createDNSRecord_ok [OF assms] by blast
  then show ?case using Cons.IH [of w1] by simp
qed

lemma processCreateActions_ok:
  assumes "onlyDuplicateFailures c" and "Atoi (domainId p) = Some d"
  shows "\<exists>w'. processCreateActions p rt c eps w = (None, w')"
proof (induction eps arbitrary: w)
  case Nil
  then show ?case by simp
next
  case (Cons ep eps)
  show ?case
  proof (cases "isProduction rt \<and> isPrivateEndpoint rt ep")
    case True
    then show ?thesis using Cons.IH [of w] by (simp add: Let_def)
  next
    case False
    obtain w1 where t: "createTargets p rt c (dnsNameOf p ep) (RecordType ep) (ttlOf p ep)
        (Targets ep) w = (None, w1)"
      using createTargets_ok [OF assms] by blast
    show ?thesis
    proof (cases "RecordType ep = RecordTypeTXT")
      case True
      then show ?thesis using False t Cons.IH [of w1] by (auto simp: Let_def)
    next
      case nt: False
      define txtVal where "txtVal = ''heritage=external-dns,external-dns/owner='' @ owner p @
          (case ((Labels ep)(OwnerLabelKey \<mapsto> owner p)) ResourceLabelKey of
             Some resource \<Rightarrow> '',external-dns/resource='' @ resource
           | None \<Rightarrow> [])"
      obtain w2 where
        x: "createDNSRecord p rt c (dnsNameOf p ep) RecordTypeTXT txtVal (ttlOf p ep) w1 = (None, w2)"
        using createDNSRecord_ok [OF assms] by blast
      show ?thesis
        using False nt t x Cons.IH [of w2] by (auto simp: Let_def txtVal_def)
    qed
  qed
qed

lemma deleteDNSRecord_ok:
  assumes "othersSucceed c"
  shows "\<exists>w'. deleteDNSRecord p c record w = (None, w')"
proof (cases "Atoi (domainId p)")
  case None
  then show ?thesis by (simp add: deleteDNSRecord_def)
next
  case (Some d)
  obtain e s' where dl: "DeleteDNSRecord c record d (backend w) = (e, s')" by fastforce
  have "e = None" using assms dl unfolding othersSucceed_def by (metis fst_conv)
  then show ?thesis using Some dl by (simp add: deleteDNSRecord_def callDelete_def)
qed

lemma updateExisting_ok:
  assumes "othersSucceed c"
  shows "\<exists>desired' w'. updateExisting p c dnsName t entries desired w = (None, desired', w')"
proof (induction entries arbitrary: desired w)
  case Nil
  then show ?case by simp
next
  case (Cons entry entries)
  obtain val rec where entry: "entry = (val, rec)" by (cases entry)
  show ?case
  proof (cases "val \<in> set desired")
    case True
    show ?thesis
    proof (cases "drifted p dnsName t rec")
      case dr: True
      show ?thesis
      proof (cases "Atoi (domainId p)")
        case None
        then show ?thesis using True dr entry Cons.IH [of desired w] by (simp add: Let_def)
      next
        case (Some d)
        let ?r = "rec\<lparr>TTL := t, Active := (\<not> disableProtection p), Name := dnsName\<rparr>"
        obtain e s' where up: "UpdateDNSRecord c ?r d (backend w) = (e, s')" by fastforce
        have "e = None" using assms up unfolding othersSucceed_def by (metis fst_conv)
        then show ?thesis
          using True dr entry Some up
            Cons.IH [of "removeAll val desired" "\<lparr>backend = s', calls = calls w @ [UpdateCall ?r d]\<rparr>"]
          by (simp add: Let_def callUpdate_def)
      qed
    next
      case False
      then show ?thesis using True entry Cons.IH [of "removeAll val desired" w] by simp
    qed
  next
    case False
    obtain w1 where "deleteDNSRecord p c rec w = (None, w1)"
      using deleteDNSRecord_ok [OF assms] by blast
    then show ?thesis using False entry Cons.IH [of desired w1] by simp
  qed
qed

lemma updateEndpoints_ok:
  assumes "onlyDuplicateFailures c" and "othersSucceed c" and "Atoi (domainId p) = Some d"
  shows "\<exists>w'. updateEndpoints p rt c allRecords txtRecords eps w = (None, w')"
proof (induction eps arbitrary: w)
  case Nil
  then show ?case by simp
next
  case (Cons ep eps)
  show ?case
  proof (cases "(isProduction rt \<and> isPrivateEndpoint rt ep) \<or>
      \<not> ownershipCheck txtRecords (stripTrailingDot (DNSName ep)) (owner p)")
    case True
    then show ?thesis using Cons.IH [of w] by (auto simp: Let_def)
  next
    case False
    obtain desired' w1 where
      u: "updateExisting p c (dnsNameOf p ep) (ttlOf p ep)
            (rangeCurrent rt (currentOf p allRecords ep)) (desiredOf ep) w = (None, desired', w1)"
      using updateExisting_ok [OF assms(2)] by blast
    obtain w2 where
      m: "createMissing p rt c (dnsNameOf p ep) (RecordType ep) (ttlOf p ep)
            (rangeDesired rt desired') w1 = (None, w2)"
      using createMissing_ok [OF assms(1,3)] by blast
    show ?thesis using False u m Cons.IH [of w2] by (auto simp: Let_def)
  qed
qed

lemma callList_ok:
  assumes "othersSucceed c"
  shows "\<exists>records w'. callList c d w = (Inr records, w')"
proof -
  obtain r s' where l: "ListDNSRecords c d (backend w) = (r, s')" by fastforce
  obtain records where "r = Inr records"
    using assms l unfolding othersSucceed_def by (metis fst_conv)
  then show ?thesis using l by (simp add: callList_def)
qed

lemma processUpdateActions_ok:
  assumes "onlyDuplicateFailures c" and "othersSucceed c" and "Atoi (domainId p) = Some d"
    and "length olds = length eps"
  shows "\<exists>w'. processUpdateActions p rt c olds eps w = (None, w')"
proof -
  obtain records w1 where l: "callList c d w = (Inr records, w1)"
    using callList_ok [OF assms(2)] by blast
  obtain w2 where "updateEndpoints p rt c records (indexTXT records Map.empty) eps w1 = (None, w2)"
    using updateEndpoints_ok [OF assms(1-3)] by blast
  then show ?thesis using assms(3,4) l by (simp add: processUpdateActions_def)
qed

lemma deleteMatching_ok:
  assumes "othersSucceed c"
  shows "\<exists>w'. deleteMatching p c targetsToDelete records w = (None, w')"
proof (induction records arbitrary: w)
  case Nil
  then show ?case by simp
next
  case (Cons r rs)
  obtain w1 where "deleteDNSRecord p c r w = (None, w1)"
    using deleteDNSRecord_ok [OF assms] by blast
  then show ?case using Cons.IH [of w] Cons.IH [of w1] by simp
qed

lemma deleteEndpoints_ok:
  assumes "othersSucceed c"
  shows "\<exists>w'. deleteEndpoints p rt c allRecords txtRecords eps w = (None, w')"
proof (induction eps arbitrary: w)
  case Nil
  then show ?case by simp
next
  case (Cons ep eps)
  obtain w1 where
    "deleteMatching p c (map (\<lambda>t. formatRecordValue t (RecordType ep)) (Targets ep))
       (findMatchingRecords allRecords (dnsNameOf p ep) (RecordType ep)) w = (None, w1)"
    using deleteMatching_ok [OF assms] by blast
  then show ?case using Cons.IH [of w] Cons.IH [of w1] by (auto simp: Let_def)
qed

lemma processDeleteActions_ok:
  assumes "othersSucceed c" and "Atoi (domainId p) = Some d"
  shows "\<exists>w'. processDeleteActions p rt c eps w = (None, w')"
proof (cases "eps = []")
  case True
  then show ?thesis by (simp add: processDeleteActions_def)
next
  case False
  obtain records w1 where l: "callList c d w = (Inr records, w1)"
    using callList_ok [OF assms(1)] by blast
  obtain w2 where "deleteEndpoints p rt c records (indexTXT records Map.empty) eps w1 = (None, w2)"
    using deleteEndpoints_ok [OF assms(1)] by blast
  then show ?thesis using False assms(2) l by (simp add: processDeleteActions_def)
qed

lemma runTask_ok:
  assumes "onlyDuplicateFailures c" and "othersSucceed c" and "Atoi (domainId p) = Some d"
    and "action task \<in> {CREATE, UPDATE, DELETE}"
  shows "\<exists>w'. runTask p rt c task w = (None, w')"
proof -
  have 1: "\<exists>w'. processCreateActions p rt c [change task] w = (None, w')"
    using processCreateActions_ok [OF assms(1,3)] by blast
  have 2: "\<exists>w'. processUpdateActions p rt c [oldChange task] [change task] w = (None, w')"
    using processUpdateActions_ok [OF assms(1-3)] by simp
  have 3: "\<exists>w'. processDeleteActions p rt c [change task] w = (None, w')"
    using processDeleteActions_ok [OF assms(2,3)] by blast
  show ?thesis using 1 2 3 assms(4) by (auto simp: runTask_def)
qed

lemma processTasksWithWorkers_ok:
  assumes "onlyDuplicateFailures c" and "othersSucceed c" and "Atoi (domainId p) = Some d"
  shows "\<forall>task\<in>set tasks. action task \<in> {CREATE, UPDATE, DELETE} \<Longrightarrow>
         \<exists>w'. processTasksWithWorkers p rt c tasks w = (None, w')"
proof (induction tasks arbitrary: w)
  case Nil
  then show ?case by simp
next
  case (Cons task tasks)
  obtain w1 where "runTask p rt c task w = (None, w1)"
    using runTask_ok [OF assms] Cons.prems by (meson list.set_intros(1))
  then show ?case using Cons.IH [of w1] Cons.prems by simp
qed

lemma buildTasks_actions:
  "\<forall>task\<in>set (buildTasks changes). action task \<in> {CREATE, UPDATE, DELETE}"
  by (auto simp: buildTasks_def)

lemma SelectDomain_domainId:
  "SelectDomain p c w = (Inr sel, p1, w1) \<Longrightarrow> domainId p1 = Itoa (DomainID sel)"
  by (auto simp: SelectDomain_def Let_def split: prod.splits sum.splits list.splits option.splits)

text \<open>
  C7. When the only way a create call fails is the duplicate rejection ("This value is
  already used"), a create task resolves as success; and when moreover the listing,
  update and delete calls do not fail, so that no other task fails, the batch as a whole
  succeeds (given a domain can be selected and the update lists have equal length).
\<close>

theorem duplicate_create_is_success:
  assumes "onlyDuplicateFailures c"
  shows "(Atoi (domainId p) \<noteq> None \<longrightarrow>
            fst (runTask p rt c \<lparr>action = CREATE, change = ep, oldChange = None\<rparr> w) = None)
       \<and> (othersSucceed c \<and> length (UpdateOld changes) = length (UpdateNew changes) \<and>
            (\<exists>sel. fst (SelectDomain p c w) = Inr sel) \<longrightarrow>
            fst (ApplyChanges p rt c changes w) = None)"
proof (intro conjI impI)
  assume "Atoi (domainId p) \<noteq> None"
  then obtain d where d: "Atoi (domainId p) = Some d" by blast
  obtain w' where "processCreateActions p rt c [ep] w = (None, w')"
    using processCreateActions_ok [OF assms d] by blast
  then show "fst (runTask p rt c \<lparr>action = CREATE, change = ep, oldChange = None\<rparr> w) = None"
    by (simp add: runTask_def)
next
  assume h: "othersSucceed c \<and> length (UpdateOld changes) = length (UpdateNew changes) \<and>
            (\<exists>sel. fst (SelectDomain p c w) = Inr sel)"
  then obtain sel p1 w1 where sd: "SelectDomain p c w = (Inr sel, p1, w1)"
    by (metis prod.collapse)
  define p2 where "p2 = p1\<lparr>domainName := DomainName sel\<rparr>"
  have "domainId p2 = Itoa (DomainID sel)" using SelectDomain_domainId [OF sd] by (simp add: p2_def)
  then have a: "Atoi (domainId p2) = Some (DomainID sel)" by (simp add: Atoi_Itoa)
  obtain w2 where "processTasksWithWorkers p2 rt c (buildTasks changes) w1 = (None, w2)"
    using processTasksWithWorkers_ok [OF assms _ a buildTasks_actions] h by blast
  then show "fst (ApplyChanges p rt c changes w) = None"
    using h sd by (simp add: ApplyChanges_def ApplyChangesWithWorkers_def Let_def p2_def)
qed

theorem duplicate_create_is_success_witness:
  "fst (runTask exampleProvider (runtimeWith ''dev'') (rejectingClient exampleDomains)
          \<lparr>action = CREATE, change = publicEndpoint, oldChange = None\<rparr> emptyWorld) = None
   \<and> fst (ApplyChanges exampleProvider (runtimeWith ''dev'') (rejectingClient exampleDomains)
          \<lparr>Create = [publicEndpoint], UpdateOld = [update1], UpdateNew = [update1],
           Delete = [publicEndpoint]\<rparr> emptyWorld) = None"
proof -
  have o: "onlyDuplicateFailures (rejectingClient exampleDomains)"
    by (simp add: onlyDuplicateFailures_def rejectingClient_def hasPrefix_def)
  have s: "othersSucceed (rejectingClient exampleDomains)"
    by (simp add: othersSucceed_def rejectingClient_def)
  have a: "Atoi (domainId exampleProvider) \<noteq> None" by code_simp
  have sd: "\<exists>sel. fst (SelectDomain exampleProvider (rejectingClient exampleDomains) emptyWorld) = Inr sel"
    by (simp add: SelectDomain_def GetDomains_def callListDomains_def rejectingClient_def
        exampleProvider_def exampleDomains_def Let_def)
  show ?thesis
    using duplicate_create_is_success [OF o, of exampleProvider "runtimeWith ''dev''"
        publicEndpoint emptyWorld
        "\<lparr>Create = [publicEndpoint], UpdateOld = [update1], UpdateNew = [update1],
           Delete = [publicEndpoint]\<rparr>"] s a sd
    by simp
qed

section \<open>The calls of the diff resolver\<close>

lemma update_entries:
  "e \<in> set (AList.update k v al) \<Longrightarrow> e = (k, v) \<or> e \<in> set al"
  by (induction al) (auto split: if_splits)

lemma foldl_update_distinct:
  "distinct (map fst m) \<Longrightarrow>
   distinct (map fst (foldl (\<lambda>current rec. AList.update (Value rec) rec current) m recs))"
  by (induction recs arbitrary: m) (simp_all add: distinct_update)

lemma foldl_update_entries:
  "\<forall>(k, r)\<in>set m. Value r = k \<Longrightarrow>
   \<forall>(k, r)\<in>set (foldl (\<lambda>current rec. AList.update (Value rec) rec current) m recs). Value r = k"
proof (induction recs arbitrary: m)
  case Nil
  then show ?case by simp
next
  case (Cons rec recs)
  have "\<forall>(k, r)\<in>set (AList.update (Value rec) rec m). Value r = k"
    using Cons.prems update_entries [of _ "Value rec" rec m] by fastforce
  then show ?case using Cons.IH by simp
qed

lemma buildCurrent_distinct: "distinct (map fst (buildCurrent recs))"
  by (simp add: buildCurrent_def foldl_update_distinct)

lemma buildCurrent_key: "(k, r) \<in> set (buildCurrent recs) \<Longrightarrow> Value r = k"
  using foldl_update_entries [of "[]" recs] by (fastforce simp: buildCurrent_def)

lemma rangeCurrent_set: "rangeOrder rt \<Longrightarrow> set (rangeCurrent rt m) = set m"
  unfolding rangeOrder_def by (metis mset_eq_setD)

lemma rangeCurrent_distinct:
  "rangeOrder rt \<Longrightarrow> distinct (map fst m) \<Longrightarrow> distinct (map fst (rangeCurrent rt m))"
proof -
  assume ro: "rangeOrder rt" and d: "distinct (map fst m)"
  have "mset (rangeCurrent rt m) = mset m" using ro unfolding rangeOrder_def by blast
  then have "mset (map fst (rangeCurrent rt m)) = mset (map fst m)" by simp
  then show ?thesis using d mset_eq_imp_distinct_iff by blast
qed

lemma rangeDesired_set: "rangeOrder rt \<Longrightarrow> set (rangeDesired rt ds) = set ds"
  unfolding rangeOrder_def by (metis mset_eq_setD)

lemma desiredOf_formatted:
  "v \<in> set (desiredOf ep) \<Longrightarrow> formatRecordValue v (RecordType ep) = v"
  by (auto simp: desiredOf_def buildDesired_def formatRecordValue_idempotent)

lemma createDNSRecord_calls:
  assumes "createDNSRecord p rt c dnsName recordType v t w = (res, w')"
  shows "\<exists>cs. calls w' = calls w @ cs \<and>
           (\<forall>x\<in>set cs. \<exists>d. x = CreateCall (newRecord p dnsName recordType v t) d)"
proof (cases "Atoi (domainId p)")
  case None
  then have "w' = w" using assms by (simp add: createDNSRecord_def)
  then show ?thesis by simp
next
  case (Some d)
  obtain e s1 where cr: "CreateDNSRecord c (newRecord p dnsName recordType v t) d (backend w) = (e, s1)"
    by fastforce
  have "w' = \<lparr>backend = s1, calls = calls w @ [CreateCall (newRecord p dnsName recordType v t) d]\<rparr>"
    using assms Some cr
    by (auto simp: createDNSRecord_def callCreate_def Let_def split: option.splits if_splits)
  then show ?thesis by simp
qed

lemma deleteDNSRecord_calls:
  assumes "deleteDNSRecord p c r w = (res, w')"
  shows "\<exists>cs. calls w' = calls w @ cs \<and> (\<forall>x\<in>set cs. \<exists>d. x = DeleteCall r d)"
proof (cases "Atoi (domainId p)")
  case None
  then have "w' = w" using assms by (simp add: deleteDNSRecord_def)
  then show ?thesis by simp
next
  case (Some d)
  obtain e s1 where dl: "DeleteDNSRecord c r d (backend w) = (e, s1)" by fastforce
  have "w' = \<lparr>backend = s1, calls = calls w @ [DeleteCall r d]\<rparr>"
    using assms Some dl
    by (auto simp: deleteDNSRecord_def callDelete_def split: option.splits)
  then show ?thesis by simp
qed

lemma createMissing_calls:
  "createMissing p rt c dnsName recordType t vals w = (res, w') \<Longrightarrow>
   \<exists>cs. calls w' = calls w @ cs \<and>
     (\<forall>x\<in>set cs. \<exists>v d. v \<in> set vals \<and> x = CreateCall (newRecord p dnsName recordType v t) d)"
proof (induction vals arbitrary: w)
  case Nil
  then show ?case by simp
next
  case (Cons val vals)
  obtain r1 w1 where c1: "createDNSRecord p rt c dnsName recordType val t w = (r1, w1)"
    by fastforce
  obtain cs1 where cs1: "calls w1 = calls w @ cs1"
    "\<forall>x\<in>set cs1. \<exists>d. x = CreateCall (newRecord p dnsName recordType val t) d"
    using createDNSRecord_calls [OF c1] by blast
  show ?case
  proof (cases r1)
    case (Some err)
    then have "w' = w1" using Cons.prems c1 by simp
    then show ?thesis using cs1 by fastforce
  next
    case None
    then have "createMissing p rt c dnsName recordType t vals w1 = (res, w')"
      using Cons.prems c1 by simp
    then obtain cs2 where cs2: "calls w' = calls w1 @ cs2"
      "\<forall>x\<in>set cs2. \<exists>v d. v \<in> set vals \<and> x = CreateCall (newRecord p dnsName recordType v t) d"
      using Cons.IH by blast
    have "calls w' = calls w @ (cs1 @ cs2)" using cs1(1) cs2(1) by simp
    moreover have "\<forall>x\<in>set (cs1 @ cs2). \<exists>v d. v \<in> set (val # vals) \<and>
        x = CreateCall (newRecord p dnsName recordType v t) d"
      using cs1(2) cs2(2) by fastforce
    ultimately show ?thesis by blast
  qed
qed

lemma updateExisting_Cons_cases:
  assumes run: "updateExisting p c dnsName t ((val, rec) # es) desired w = (res, desired', w')"
  obtains
    (skip) "val \<in> set desired" "drifted p dnsName t rec" "Atoi (domainId p) = None"
      "updateExisting p c dnsName t es desired w = (res, desired', w')"
  | (update_failed) d msg s1 where "val \<in> set desired" "drifted p dnsName t rec"
      "Atoi (domainId p) = Some d" "res = Some (ApiError msg)" "desired' = desired"
      "w' = \<lparr>backend = s1, calls = calls w @
          [UpdateCall (rec\<lparr>TTL := t, Active := (\<not> disableProtection p), Name := dnsName\<rparr>) d]\<rparr>"
  | (updated) d s1 where "val \<in> set desired" "drifted p dnsName t rec"
      "Atoi (domainId p) = Some d"
      "updateExisting p c dnsName t es (removeAll val desired)
         \<lparr>backend = s1, calls = calls w @
          [UpdateCall (rec\<lparr>TTL := t, Active := (\<not> disableProtection p), Name := dnsName\<rparr>) d]\<rparr>
       = (res, desired', w')"
  | (kept) "val \<in> set desired" "\<not> drifted p dnsName t rec"
      "updateExisting p c dnsName t es (removeAll val desired) w = (res, desired', w')"
  | (delete_failed) err where "val \<notin> set desired" "deleteDNSRecord p c rec w = (Some err, w')"
      "res = Some err" "desired' = desired"
  | (deleted) w1 where "val \<notin> set desired" "deleteDNSRecord p c rec w = (None, w1)"
      "updateExisting p c dnsName t es desired w1 = (res, desired', w')"
proof (cases "val \<in> set desired")
  case inD: True
  show ?thesis
  proof (cases "drifted p dnsName t rec")
    case dr: True
    show ?thesis
    proof (cases "Atoi (domainId p)")
      case None
      then have "updateExisting p c dnsName t es desired w = (res, desired', w')"
        using run inD dr by (simp add: Let_def)
      then show ?thesis using skip inD dr None by blast
    next
      case (Some d)
      let ?r = "rec\<lparr>TTL := t, Active := (\<not> disableProtection p), Name := dnsName\<rparr>"
      obtain e s1 where up: "UpdateDNSRecord c ?r d (backend w) = (e, s1)" by fastforce
      have cu: "callUpdate c ?r d w = (e, \<lparr>backend = s1, calls = calls w @ [UpdateCall ?r d]\<rparr>)"
        using up by (simp add: callUpdate_def)
      have unfold: "updateExisting p c dnsName t ((val, rec) # es) desired w =
          (case callUpdate c ?r d w of
             (Some msg, w') \<Rightarrow> (Some (ApiError msg), desired, w')
           | (None, w') \<Rightarrow> updateExisting p c dnsName t es (removeAll val desired) w')"
        using inD dr Some by (simp add: Let_def)
      show ?thesis
      proof (cases e)
        case None
        have "updateExisting p c dnsName t es (removeAll val desired)
           \<lparr>backend = s1, calls = calls w @ [UpdateCall ?r d]\<rparr> = (res, desired', w')"
          using run unfolding unfold cu None by simp
        then show ?thesis using updated inD dr Some by blast
      next
        case (Some msg)
        have "(Some (ApiError msg), desired, \<lparr>backend = s1, calls = calls w @ [UpdateCall ?r d]\<rparr>)
            = (res, desired', w')"
          using run unfolding unfold cu Some by simp
        then have "res = Some (ApiError msg)" "desired' = desired"
          "w' = \<lparr>backend = s1, calls = calls w @ [UpdateCall ?r d]\<rparr>" by simp_all
        then show ?thesis using update_failed inD dr \<open>Atoi (domainId p) = Some d\<close> by blast
      qed
    qed
  next
    case False
    then have "updateExisting p c dnsName t es (removeAll val desired) w = (res, desired', w')"
      using run inD by simp
    then show ?thesis using kept inD False by blast
  qed
next
  case notD: False
  obtain r1 w1 where dl: "deleteDNSRecord p c rec w = (r1, w1)" by fastforce
  have unfold: "updateExisting p c dnsName t ((val, rec) # es) desired w =
      (case deleteDNSRecord p c rec w of
         (Some err, w') \<Rightarrow> (Some err, desired, w')
       | (None, w') \<Rightarrow> updateExisting p c dnsName t es desired w')"
    using notD by simp
  show ?thesis
  proof (cases r1)
    case None
    have "updateExisting p c dnsName t es desired w1 = (res, desired', w')"
      using run unfolding unfold dl None by simp
    then show ?thesis using deleted notD dl None by blast
  next
    case (Some err)
    have "(Some err, desired, w1) = (res, desired', w')"
      using run unfolding unfold dl Some by simp
    then have "res = Some err" "desired' = desired" "w' = w1" by simp_all
    then show ?thesis using delete_failed notD dl Some by blast
  qed
qed

lemma plannedCall_Cons:
  "\<forall>r d. x \<noteq> CreateCall r d \<Longrightarrow> plannedCall p dnsName ty t es desired x \<Longrightarrow>
   plannedCall p dnsName ty t (e # es) desired x"
  by (cases x) (simp_all add: list_ex_iff)

lemma plannedCall_removed:
  assumes "val \<notin> fst ` set es" and "\<forall>r d. x \<noteq> CreateCall r d"
    and "plannedCall p dnsName ty t es (removeAll val desired) x"
  shows "plannedCall p dnsName ty t ((val, rec) # es) desired x"
proof (cases x)
  case (UpdateCall r d)
  then show ?thesis using assms(3) by (auto simp: list_ex_iff)
next
  case (DeleteCall r d)
  then obtain val' where h: "(val', r) \<in> set es" "val' \<notin> set (removeAll val desired)"
    using assms(3) by (auto simp: list_ex_iff)
  have "val' \<noteq> val" using h(1) assms(1) by force
  then have "val' \<notin> set desired" using h(2) by simp
  then show ?thesis using h(1) DeleteCall by (auto simp: list_ex_iff)
next
  case (CreateCall r d)
  then show ?thesis using assms(2) by simp
qed (use assms(3) in simp_all)

lemma plannedCall_update_here:
  "val \<in> set desired \<Longrightarrow> drifted p dnsName t rec \<Longrightarrow>
   plannedCall p dnsName ty t ((val, rec) # es) desired
     (UpdateCall (rec\<lparr>TTL := t, Active := (\<not> disableProtection p), Name := dnsName\<rparr>) d)"
  by simp

lemma plannedCall_delete_here:
  "val \<notin> set desired \<Longrightarrow> plannedCall p dnsName ty t ((val, rec) # es) desired (DeleteCall rec d)"
  by simp

lemma ok_Cons:
  assumes "(\<forall>r d. x \<noteq> CreateCall r d) \<and> plannedCall p dnsName ty t es desired x"
  shows "(\<forall>r d. x \<noteq> CreateCall r d) \<and> plannedCall p dnsName ty t (e # es) desired x"
  using assms plannedCall_Cons [of x p dnsName ty t es desired e] by simp

lemma ok_removed:
  assumes "val \<notin> fst ` set es"
    and "(\<forall>r d. x \<noteq> CreateCall r d) \<and> plannedCall p dnsName ty t es (removeAll val desired) x"
  shows "(\<forall>r d. x \<noteq> CreateCall r d) \<and> plannedCall p dnsName ty t ((val, rec) # es) desired x"
  using assms plannedCall_removed [of val es x p dnsName ty t desired rec] by simp

text \<open>
  Step 1 issues only planned updates and deletes, never a create.
\<close>

lemma updateExisting_calls:
  "distinct (map fst es) \<Longrightarrow>
   updateExisting p c dnsName t es desired w = (res, desired', w') \<Longrightarrow>
   \<exists>cs. calls w' = calls w @ cs \<and>
     (\<forall>x\<in>set cs. (\<forall>r d. x \<noteq> CreateCall r d) \<and> plannedCall p dnsName ty t es desired x)"
proof (induction es arbitrary: desired w)
  case Nil
  then have "calls w' = calls w @ []" by simp
  then show ?case by (intro exI [of _ "[]"]) simp
next
  case (Cons entry es)
  obtain val rec where entry: "entry = (val, rec)" by (cases entry)
  have dist: "distinct (map fst es)" and fresh: "val \<notin> fst ` set es"
    using Cons.prems(1) entry by auto
  define r' where "r' = rec\<lparr>TTL := t, Active := (\<not> disableProtection p), Name := dnsName\<rparr>"
  define ok where "ok = (\<lambda>es desired x.
      (\<forall>r d. x \<noteq> CreateCall r d) \<and> plannedCall p dnsName ty t es desired x)"
  have okC: "ok es desired x \<Longrightarrow> ok (entry # es) desired x" for x
    unfolding ok_def by (rule ok_Cons)
  have okR: "ok es (removeAll val desired) x \<Longrightarrow> ok (entry # es) desired x" for x
    unfolding ok_def entry by (rule ok_removed [OF fresh])
  have okU: "val \<in> set desired \<Longrightarrow> drifted p dnsName t rec \<Longrightarrow>
      ok (entry # es) desired (UpdateCall r' d)" for d
    unfolding ok_def entry r'_def by simp
  have okD: "val \<notin> set desired \<Longrightarrow> ok (entry # es) desired (DeleteCall rec d)" for d
    unfolding ok_def entry by simp
  have IH: "updateExisting p c dnsName t es desired0 w0 = (res, desired', w') \<Longrightarrow>
      \<exists>cs. calls w' = calls w0 @ cs \<and> (\<forall>x\<in>set cs. ok es desired0 x)" for desired0 w0
    unfolding ok_def using Cons.IH [OF dist] by blast
  have run: "updateExisting p c dnsName t ((val, rec) # es) desired w = (res, desired', w')"
    using Cons.prems(2) entry by simp
  have goal: "\<exists>cs. calls w' = calls w @ cs \<and> (\<forall>x\<in>set cs. ok (entry # es) desired x)"
    using run
  proof (cases rule: updateExisting_Cons_cases)
    case skip
    obtain cs where cs: "calls w' = calls w @ cs" "\<forall>x\<in>set cs. ok es desired x"
      using IH [OF skip(4)] by blast
    have "\<forall>x\<in>set cs. ok (entry # es) desired x"
    proof
      fix x assume "x \<in> set cs"
      then have "ok es desired x" using cs(2) by simp
      then show "ok (entry # es) desired x" by (rule okC)
    qed
    then show ?thesis using cs(1) by blast
  next
    case (update_failed d msg s1)
    have "ok (entry # es) desired (UpdateCall r' d)"
      using okU update_failed(1,2) by simp
    then have "\<forall>x\<in>set [UpdateCall r' d]. ok (entry # es) desired x" by simp
    moreover have "calls w' = calls w @ [UpdateCall r' d]"
      using update_failed(6) by (simp add: r'_def)
    ultimately show ?thesis by blast
  next
    case (updated d s1)
    have run': "updateExisting p c dnsName t es (removeAll val desired)
         \<lparr>backend = s1, calls = calls w @ [UpdateCall r' d]\<rparr> = (res, desired', w')"
      using updated(4) by (simp add: r'_def)
    obtain cs where cs: "calls w' = (calls w @ [UpdateCall r' d]) @ cs"
      "\<forall>x\<in>set cs. ok es (removeAll val desired) x"
      using IH [OF run'] by auto
    have h: "ok (entry # es) desired (UpdateCall r' d)"
      using okU updated(1,2) by simp
    have "\<forall>x\<in>set cs. ok (entry # es) desired x"
    proof
      fix x assume "x \<in> set cs"
      then have "ok es (removeAll val desired) x" using cs(2) by simp
      then show "ok (entry # es) desired x" by (rule okR)
    qed
    then have "\<forall>x\<in>set (UpdateCall r' d # cs). ok (entry # es) desired x" using h by simp
    moreover have "calls w' = calls w @ (UpdateCall r' d # cs)" using cs(1) by simp
    ultimately show ?thesis by blast
  next
    case kept
    obtain cs where cs: "calls w' = calls w @ cs" "\<forall>x\<in>set cs. ok es (removeAll val desired) x"
      using IH [OF kept(3)] by blast
    have "\<forall>x\<in>set cs. ok (entry # es) desired x"
    proof
      fix x assume "x \<in> set cs"
      then have "ok es (removeAll val desired) x" using cs(2) by simp
      then show "ok (entry # es) desired x" by (rule okR)
    qed
    then show ?thesis using cs(1) by blast
  next
    case (delete_failed err)
    obtain cs1 where cs1: "calls w' = calls w @ cs1" "\<forall>x\<in>set cs1. \<exists>d. x = DeleteCall rec d"
      using deleteDNSRecord_calls [OF delete_failed(2)] by blast
    have "\<forall>x\<in>set cs1. ok (entry # es) desired x"
    proof
      fix x assume "x \<in> set cs1"
      then obtain d where "x = DeleteCall rec d" using cs1(2) by blast
      then show "ok (entry # es) desired x" using okD delete_failed(1) by simp
    qed
    then show ?thesis using cs1(1) by blast
  next
    case (deleted w1)
    obtain cs1 where cs1: "calls w1 = calls w @ cs1" "\<forall>x\<in>set cs1. \<exists>d. x = DeleteCall rec d"
      using deleteDNSRecord_calls [OF deleted(2)] by blast
    have a: "\<forall>x\<in>set cs1. ok (entry # es) desired x"
    proof
      fix x assume "x \<in> set cs1"
      then obtain d where "x = DeleteCall rec d" using cs1(2) by blast
      then show "ok (entry # es) desired x" using okD deleted(1) by simp
    qed
    obtain cs where cs: "calls w' = calls w1 @ cs" "\<forall>x\<in>set cs. ok es desired x"
      using IH [OF deleted(3)] by blast
    have b: "\<forall>x\<in>set cs. ok (entry # es) desired x"
    proof
      fix x assume "x \<in> set cs"
      then have "ok es desired x" using cs(2) by simp
      then show "ok (entry # es) desired x" by (rule okC)
    qed
    have "\<forall>x\<in>set (cs1 @ cs). ok (entry # es) desired x" using a b by auto
    moreover have "calls w' = calls w @ (cs1 @ cs)" using cs(1) cs1(1) by simp
    ultimately show ?thesis by blast
  qed
  then show ?case unfolding ok_def .
qed

lemma updateExisting_desired:
  "updateExisting p c dnsName t es desired w = (res, desired', w') \<Longrightarrow>
   set desired' \<subseteq> set desired \<and>
   (res = None \<longrightarrow> Atoi (domainId p) \<noteq> None \<longrightarrow> set desired' \<inter> fst ` set es = {})"
proof (induction es arbitrary: desired w)
  case Nil
  then show ?case by simp
next
  case (Cons entry es)
  obtain val rec where entry: "entry = (val, rec)" by (cases entry)
  have run: "updateExisting p c dnsName t ((val, rec) # es) desired w = (res, desired', w')"
    using Cons.prems entry by simp
  from run show ?case
  proof (cases rule: updateExisting_Cons_cases)
    case skip
    then show ?thesis using Cons.IH [OF skip(4)] by simp
  next
    case (update_failed d msg s1)
    then show ?thesis by simp
  next
    case (updated d s1)
    have "set desired' \<subseteq> set (removeAll val desired)"
      "res = None \<longrightarrow> Atoi (domainId p) \<noteq> None \<longrightarrow> set desired' \<inter> fst ` set es = {}"
      using Cons.IH [OF updated(4)] by blast+
    then show ?thesis using entry by auto
  next
    case kept
    have "set desired' \<subseteq> set (removeAll val desired)"
      "res = None \<longrightarrow> Atoi (domainId p) \<noteq> None \<longrightarrow> set desired' \<inter> fst ` set es = {}"
      using Cons.IH [OF kept(3)] by blast+
    then show ?thesis using entry by auto
  next
    case (delete_failed err)
    then show ?thesis by simp
  next
    case (deleted w1)
    have "set desired' \<subseteq> set desired"
      "res = None \<longrightarrow> Atoi (domainId p) \<noteq> None \<longrightarrow> set desired' \<inter> fst ` set es = {}"
      using Cons.IH [OF deleted(3)] by blast+
    then show ?thesis using entry deleted(1) by auto
  qed
qed

lemma plannedCall_set_cong:
  "set es = set current \<Longrightarrow>
   plannedCall p dnsName ty t es desired x = plannedCall p dnsName ty t current desired x"
  by (cases x) (simp_all add: list_ex_iff)

lemma plannedCall_create:
  "v \<in> set desired \<Longrightarrow> v \<notin> fst ` set current \<Longrightarrow>
   plannedCall p dnsName ty t current desired (CreateCall (newRecord p dnsName ty v t) d)"
  by (auto simp: list_ex_iff)

text \<open>
  The calls of the update path for one endpoint, after the listing call, are planned
  calls of the diff of that endpoint.
\<close>

lemma updateEndpoints_single_calls:
  assumes ro: "rangeOrder rt" and atoi: "Atoi (domainId p) = Some d"
    and run: "updateEndpoints p rt c allRecords txtRecords [newEp] w = (res, w')"
  shows "\<exists>cs. calls w' = calls w @ cs \<and>
           (\<forall>x\<in>set cs. plannedCall p (dnsNameOf p newEp) (RecordType newEp) (ttlOf p newEp)
                          (currentOf p allRecords newEp) (desiredOf newEp) x)"
proof (cases "(isProduction rt \<and> isPrivateEndpoint rt newEp) \<or>
      \<not> ownershipCheck txtRecords (stripTrailingDot (DNSName newEp)) (owner p)")
  case True
  have "w' = w"
  proof (cases "isProduction rt \<and> isPrivateEndpoint rt newEp")
    case priv: True
    then show ?thesis using run by (simp add: Let_def)
  next
    case False
    then have "\<not> ownershipCheck txtRecords (stripTrailingDot (DNSName newEp)) (owner p)"
      using True by blast
    then show ?thesis using run False by (simp add: Let_def)
  qed
  then show ?thesis by simp
next
  case False
  define dn where "dn = dnsNameOf p newEp"
  define ty where "ty = RecordType newEp"
  define t where "t = ttlOf p newEp"
  define current where "current = currentOf p allRecords newEp"
  define desired where "desired = desiredOf newEp"
  define es where "es = rangeCurrent rt current"
  have set_es: "set es = set current" using ro by (simp add: es_def rangeCurrent_set)
  have "distinct (map fst current)"
    by (simp add: current_def currentOf_def buildCurrent_distinct)
  then have dist: "distinct (map fst es)" using ro by (simp add: es_def rangeCurrent_distinct)
  obtain r1 desired' w1 where u: "updateExisting p c dn t es desired w = (r1, desired', w1)"
    by (metis prod.collapse)
  obtain cs1 where cs1: "calls w1 = calls w @ cs1"
    "\<forall>x\<in>set cs1. plannedCall p dn ty t es desired x"
    using updateExisting_calls [OF dist u, of ty] by blast
  have p1: "\<forall>x\<in>set cs1. plannedCall p dn ty t current desired x"
    using cs1(2) plannedCall_set_cong [OF set_es] by simp
  have d1: "set desired' \<subseteq> set desired"
    and d2: "r1 = None \<longrightarrow> set desired' \<inter> fst ` set current = {}"
    using updateExisting_desired [OF u] atoi set_es by auto
  have unfold: "updateEndpoints p rt c allRecords txtRecords [newEp] w =
      (case updateExisting p c dn t es desired w of
         (Some err, desired', w1) \<Rightarrow> (Some err, w1)
       | (None, desired', w1) \<Rightarrow>
           (case createMissing p rt c dn ty t (rangeDesired rt desired') w1 of
              (Some err, w2) \<Rightarrow> (Some err, w2)
            | (None, w2) \<Rightarrow> (None, w2)))"
    using False
    by (auto simp: Let_def dn_def ty_def t_def current_def desired_def es_def
        split: prod.splits option.splits)
  show ?thesis
  proof (cases r1)
    case (Some err)
    then have "w' = w1" using run unfolding unfold u by simp
    then show ?thesis
      using cs1(1) p1 unfolding dn_def ty_def t_def current_def desired_def by blast
  next
    case None
    obtain r2 w2 where m: "createMissing p rt c dn ty t (rangeDesired rt desired') w1 = (r2, w2)"
      by (metis prod.collapse)
    have "w' = w2" using run m unfolding unfold u None by (cases r2) simp_all
    obtain cs2 where cs2: "calls w2 = calls w1 @ cs2"
      "\<forall>x\<in>set cs2. \<exists>v d. v \<in> set (rangeDesired rt desired') \<and>
          x = CreateCall (newRecord p dn ty v t) d"
      using createMissing_calls [OF m] by blast
    have p2: "\<forall>x\<in>set cs2. plannedCall p dn ty t current desired x"
    proof
      fix x assume "x \<in> set cs2"
      then obtain v d where v: "v \<in> set (rangeDesired rt desired')"
        "x = CreateCall (newRecord p dn ty v t) d" using cs2(2) by blast
      have "v \<in> set desired'" using v(1) ro by (simp add: rangeDesired_set)
      then have "v \<in> set desired" "v \<notin> fst ` set current" using d1 d2 None by auto
      then show "plannedCall p dn ty t current desired x"
        unfolding v(2) by (rule plannedCall_create)
    qed
    have "calls w' = calls w @ (cs1 @ cs2)" using \<open>w' = w2\<close> cs1(1) cs2(1) by simp
    moreover have "\<forall>x\<in>set (cs1 @ cs2). plannedCall p dn ty t current desired x"
      using p1 p2 by auto
    ultimately show ?thesis
      unfolding dn_def ty_def t_def current_def desired_def by blast
  qed
qed

lemma processUpdateActions_single_calls:
  assumes ro: "rangeOrder rt" and atoi: "Atoi (domainId p) = Some d"
    and snap: "ListDNSRecords c d (backend w) = (Inr allRecords, s')"
  shows "\<exists>cs. issued w (snd (processUpdateActions p rt c [old] [newEp] w)) = ListCall d # cs \<and>
           (\<forall>x\<in>set cs. plannedCall p (dnsNameOf p newEp) (RecordType newEp) (ttlOf p newEp)
                          (currentOf p allRecords newEp) (desiredOf newEp) x)"
proof -
  define w0 where "w0 = \<lparr>backend = s', calls = calls w @ [ListCall d]\<rparr>"
  obtain res w' where
    run: "updateEndpoints p rt c allRecords (indexTXT allRecords Map.empty) [newEp] w0 = (res, w')"
    by (metis prod.collapse)
  have top: "processUpdateActions p rt c [old] [newEp] w = (res, w')"
    using atoi snap run by (simp add: processUpdateActions_def callList_def w0_def)
  obtain cs where cs: "calls w' = calls w0 @ cs"
    "\<forall>x\<in>set cs. plannedCall p (dnsNameOf p newEp) (RecordType newEp) (ttlOf p newEp)
                          (currentOf p allRecords newEp) (desiredOf newEp) x"
    using updateEndpoints_single_calls [OF ro atoi run] by blast
  have "issued w w' = ListCall d # cs" using cs(1) by (simp add: issued_def w0_def)
  then show ?thesis using cs(2) top by auto
qed

lemma currentOf_facts:
  "distinct (map fst (currentOf p allRecords newEp))"
  "(k, r) \<in> set (currentOf p allRecords newEp) \<Longrightarrow> Value r = k"
  by (simp_all add: currentOf_def buildCurrent_distinct buildCurrent_key)

lemma planned_not_retained:
  assumes cur: "(val, rec) \<in> set (currentOf p allRecords newEp)"
    and des: "val \<in> set (desiredOf newEp)"
    and nd: "\<not> drifted p dnsName t rec"
    and pl: "plannedCall p dnsName (RecordType newEp) t (currentOf p allRecords newEp)
               (desiredOf newEp) x"
  shows "callValue x \<noteq> Some val"
proof (cases x)
  case (UpdateCall r d)
  then obtain val' rec' where h: "(val', rec') \<in> set (currentOf p allRecords newEp)"
    "drifted p dnsName t rec'"
    "r = rec'\<lparr>TTL := t, Active := (\<not> disableProtection p), Name := dnsName\<rparr>"
    using pl by (auto simp: list_ex_iff)
  have "Value r = val'" using h(1,3) currentOf_facts(2) by fastforce
  moreover have "val' \<noteq> val"
  proof
    assume "val' = val"
    then have "rec' = rec"
      using h(1) cur currentOf_facts(1) [of p allRecords newEp] by (metis eq_key_imp_eq_value)
    then show False using h(2) nd by simp
  qed
  ultimately show ?thesis using UpdateCall by simp
next
  case (DeleteCall r d)
  then obtain val' where h: "(val', r) \<in> set (currentOf p allRecords newEp)"
    "val' \<notin> set (desiredOf newEp)"
    using pl by (auto simp: list_ex_iff)
  have "Value r = val'" using h(1) currentOf_facts(2) by fastforce
  then show ?thesis using DeleteCall h(2) des by auto
next
  case (CreateCall r d)
  then obtain v where h: "v \<in> set (desiredOf newEp)"
    "v \<notin> fst ` set (currentOf p allRecords newEp)"
    "r = newRecord p dnsName (RecordType newEp) v t"
    using pl by (auto simp: list_ex_iff)
  have "Value r = v" using h(1,3) desiredOf_formatted by (simp add: newRecord_def)
  moreover have "v \<noteq> val" using h(2) cur by force
  ultimately show ?thesis using CreateCall by simp
qed (use pl in simp_all)

lemma planned_no_delete_no_create:
  assumes cur: "val \<in> fst ` set (currentOf p allRecords newEp)"
    and des: "val \<in> set (desiredOf newEp)"
    and pl: "plannedCall p dnsName (RecordType newEp) t (currentOf p allRecords newEp)
               (desiredOf newEp) x"
  shows "\<not> isDeleteOf val x"
proof (cases x)
  case (DeleteCall r d)
  then obtain val' where h: "(val', r) \<in> set (currentOf p allRecords newEp)"
    "val' \<notin> set (desiredOf newEp)"
    using pl by (auto simp: list_ex_iff)
  have "Value r = val'" using h(1) currentOf_facts(2) by fastforce
  then show ?thesis using DeleteCall h(2) des by auto
qed simp_all

lemma no_delete_not_deletedThenCreated:
  "\<forall>x\<in>set cs. \<not> isDeleteOf v x \<Longrightarrow> \<not> deletedThenCreated v cs"
  by (induction cs) simp_all

text \<open>
  C5. In an update task, a value that both the current record set and the desired value
  set hold, and whose retained record shows no drift (TTL, active flag and name as
  desired), gets no backend call: no call of the task carries that value.
\<close>

theorem no_call_for_retained_value:
  assumes "rangeOrder rt"
    and "Atoi (domainId p) = Some d"
    and "ListDNSRecords c d (backend w) = (Inr allRecords, s')"
    and "(val, rec) \<in> set (currentOf p allRecords newEp)"
    and "val \<in> set (desiredOf newEp)"
    and "\<not> drifted p (dnsNameOf p newEp) (ttlOf p newEp) rec"
  shows "\<forall>x\<in>set (issued w (snd (processUpdateActions p rt c [old] [newEp] w))).
           callValue x \<noteq> Some val"
proof -
  obtain cs where cs:
    "issued w (snd (processUpdateActions p rt c [old] [newEp] w)) = ListCall d # cs"
    "\<forall>x\<in>set cs. plannedCall p (dnsNameOf p newEp) (RecordType newEp) (ttlOf p newEp)
                          (currentOf p allRecords newEp) (desiredOf newEp) x"
    using processUpdateActions_single_calls [OF assms(1-3)] by blast
  have "\<forall>x\<in>set cs. callValue x \<noteq> Some val"
    using cs(2) planned_not_retained [OF assms(4-6)] by blast
  then show ?thesis unfolding cs(1) by simp
qed

text \<open>
  C8. Retention takes priority over recreation: in an update task, for a value that both
  the current record set and the desired value set hold, the calls of the task never
  contain a delete of a record of that value followed by a create of that value.
\<close>

theorem retained_value_not_recreated:
  assumes "rangeOrder rt"
    and "Atoi (domainId p) = Some d"
    and "ListDNSRecords c d (backend w) = (Inr allRecords, s')"
    and "val \<in> fst ` set (currentOf p allRecords newEp)"
    and "val \<in> set (desiredOf newEp)"
  shows "\<not> deletedThenCreated val
            (issued w (snd (processUpdateActions p rt c [old] [newEp] w)))"
proof -
  obtain cs where cs:
    "issued w (snd (processUpdateActions p rt c [old] [newEp] w)) = ListCall d # cs"
    "\<forall>x\<in>set cs. plannedCall p (dnsNameOf p newEp) (RecordType newEp) (ttlOf p newEp)
                          (currentOf p allRecords newEp) (desiredOf newEp) x"
    using processUpdateActions_single_calls [OF assms(1-3)] by blast
  have "\<forall>x\<in>set cs. \<not> isDeleteOf val x"
    using cs(2) planned_no_delete_no_create [OF assms(4,5)] by blast
  then have "\<forall>x\<in>set (ListCall d # cs). \<not> isDeleteOf val x" by simp
  then show ?thesis unfolding cs(1) by (rule no_delete_not_deletedThenCreated)
qed

theorem no_call_for_retained_value_witness:
  "list_all (\<lambda>x. callValue x \<noteq> Some ''8.8.8.8'')
     (issued ownedWorld
        (snd (processUpdateActions exampleProvider (runtimeWith ''prod'')
                (storeClient exampleDomains) [None] [updatedEndpoint] ownedWorld)))
   \<and> length (issued ownedWorld
        (snd (processUpdateActions exampleProvider (runtimeWith ''prod'')
                (storeClient exampleDomains) [None] [updatedEndpoint] ownedWorld))) = 3"
proof -
  have ro: "rangeOrder (runtimeWith ''prod'')" by (simp add: rangeOrder_def runtimeWith_def)
  have a: "Atoi (domainId exampleProvider) = Some 123" by code_simp
  have l: "ListDNSRecords (storeClient exampleDomains) 123 (backend ownedWorld)
      = (Inr (backend ownedWorld), backend ownedWorld)"
    by (simp add: storeClient_def)
  have cur: "(''8.8.8.8'',
       \<lparr>ID = 1, Name = ''app.example.com'', Value = ''8.8.8.8'', RecType = ''A'',
        Active = True, Enabled = True, TTL = 300\<rparr>)
      \<in> set (currentOf exampleProvider (backend ownedWorld) updatedEndpoint)"
    by code_simp
  have des: "''8.8.8.8'' \<in> set (desiredOf updatedEndpoint)" by code_simp
  have nd: "\<not> drifted exampleProvider (dnsNameOf exampleProvider updatedEndpoint)
      (ttlOf exampleProvider updatedEndpoint)
      \<lparr>ID = 1, Name = ''app.example.com'', Value = ''8.8.8.8'', RecType = ''A'',
        Active = True, Enabled = True, TTL = 300\<rparr>"
    by code_simp
  have n: "length (issued ownedWorld
        (snd (processUpdateActions exampleProvider (runtimeWith ''prod'')
                (storeClient exampleDomains) [None] [updatedEndpoint] ownedWorld))) = 3"
    by code_simp
  show ?thesis
    using no_call_for_retained_value [OF ro a l cur des nd, of None] n
    by (simp add: list_all_iff)
qed

theorem retained_value_not_recreated_witness:
  "\<not> deletedThenCreated ''8.8.8.8''
       (issued ownedWorld
          (snd (processUpdateActions exampleProvider (runtimeWith ''prod'')
                  (storeClient exampleDomains) [None] [updatedEndpoint] ownedWorld)))"
proof -
  have ro: "rangeOrder (runtimeWith ''prod'')" by (simp add: rangeOrder_def runtimeWith_def)
  have a: "Atoi (domainId exampleProvider) = Some 123" by code_simp
  have l: "ListDNSRecords (storeClient exampleDomains) 123 (backend ownedWorld)
      = (Inr (backend ownedWorld), backend ownedWorld)"
    by (simp add: storeClient_def)
  have cur: "''8.8.8.8'' \<in> fst ` set (currentOf exampleProvider (backend ownedWorld) updatedEndpoint)"
    by code_simp
  have des: "''8.8.8.8'' \<in> set (desiredOf updatedEndpoint)" by code_simp
  show ?thesis
    using retained_value_not_recreated [OF ro a l cur des, of None] by simp
qed

section \<open>Re-application\<close>


section \<open>The record store under the update path\<close>
































end
